theory Spec2Isabelle
  imports Complex_Main
begin

section \<open>Data model (types.ts)\<close>

text \<open>
  The interfaces of the application, as records. A field that TypeScript marks optional
  (\<^verbatim>\<open>imageUrl?: string\<close>) is an \<open>option\<close>. Field names that several interfaces share
  (\<^verbatim>\<open>id\<close>) carry the interface as a prefix. The optional fields \<^verbatim>\<open>baseAmount\<close>, \<^verbatim>\<open>unit\<close>
  and \<^verbatim>\<open>cookTime\<close> are never read or written by the application and are left out.

  JavaScript numbers are binary64 floating-point values. The estimated cost, the one
  number that enters rounded arithmetic, is a \<open>Double\<close>: a non-negative finite binary64
  value, given by a significand below \<open>2 ^ 53\<close> and an exponent from \<open>- 1074\<close> on,
  with the value \<open>significand * 2 ^ exponent\<close>. The servings multiplier takes multiples
  of one half only, which binary64 holds and adds exactly, and is a rational; the other
  numbers are stored and never computed with, and are rationals too. Timestamps
  (\<^verbatim>\<open>Date.now()\<close>) are naturals.
\<close>

record Double =
  significand :: nat
  exponent :: int

datatype UserRole = ADMIN | USER

record Ingredient =
  ing_id :: string
  item :: string
  amount :: string
  estimatedCost :: Double
  category :: string
  checked :: bool

record User =
  user_id :: string
  name :: string
  role :: UserRole
  avatar :: string
  favorites :: "string list"
  shoppingList :: "Ingredient list"

datatype Difficulty = Easy | Medium | Hard

record Recipe =
  rec_id :: string
  title :: string
  description :: string
  ingredients :: "Ingredient list"
  instructions :: "string list"
  instructionThumbnails :: "string list option"
  tips :: string
  imageUrl :: "string option"
  videoUrl :: "string option"
  authorId :: string
  createdAt :: nat
  tags :: "string list"
  servings :: rat
  prepTime :: string
  difficulty :: "Difficulty option"
  calories :: "rat option"

datatype ViewState = HOME | RECIPE_DETAIL | CREATE_RECIPE | SHOPPING_LIST | COOKING_MODE

record GenIngredient =
  gen_item :: string
  gen_amount :: string
  gen_estimatedCost :: Double
  gen_category :: string

record RecipeGenResponse =
  gen_title :: string
  gen_description :: string
  gen_ingredients :: "GenIngredient list"
  gen_instructions :: "string list"
  gen_tips :: string
  gen_servings :: rat
  gen_prepTime :: string
  gen_tags :: "string list"
  gen_difficulty :: Difficulty
  gen_calories :: rat

section \<open>Application state (App.tsx)\<close>

text \<open>
  The \<^verbatim>\<open>useState\<close> cells of the \<^verbatim>\<open>App\<close> component, as one record. Two fields are not
  React state: \<open>alerts\<close> collects the \<^verbatim>\<open>alert(...)\<close> notices shown to the user, newest
  last, and \<open>pendingImages\<close> lists the hero-image requests that are in flight, each
  with the id of the draft it was sent for. The draft is declared \<^verbatim>\<open>Partial<Recipe>\<close>;
  every draft the application builds has all required fields of a recipe, so it is a
  \<open>Recipe\<close> here, and \<^verbatim>\<open>draftRecipe as Recipe\<close> is the identity.
\<close>

datatype CreationStep = MEDIA | REVIEW

datatype Notice =
  RecipeNotUnderstood
| VideoFailed
| VisualsFailed
| DraftVideoFailed
| AddedToShoppingList

record ImageRequest =
  req_draft :: string
  req_title :: string
  req_description :: string

record AppState =
  users :: "User list"
  currentUser :: User
  recipes :: "Recipe list"
  view :: ViewState
  selectedRecipe :: "Recipe option"
  isUserMenuOpen :: bool
  isProfileModalOpen :: bool
  servingsMultiplier :: rat
  currentStepIndex :: int
  isGenerating :: bool
  creationStep :: CreationStep
  draftRecipe :: "Recipe option"
  capturedImage :: "string option"
  alerts :: "Notice list"
  pendingImages :: "ImageRequest list"

section \<open>Values of the JavaScript runtime\<close>

text \<open>
  Decimal rendering of a non-negative integer, as a template literal renders
  \<^verbatim>\<open>Date.now()\<close> or an array index.
\<close>

fun show_nat :: "nat \<Rightarrow> string" where
  "show_nat n =
     (if n < 10 then [''0123456789'' ! n]
      else show_nat (n div 10) @ [''0123456789'' ! (n mod 10)])"

declare show_nat.simps [simp del]

text \<open>
  Rendering of the servings multiplier in a template literal or in JSX. The multiplier
  starts at 1 and moves in steps of one half, never below one half, so its values are
  non-negative multiples of one half: these print as \<^verbatim>\<open>2\<close> or \<^verbatim>\<open>1.5\<close>.
\<close>

definition show_number :: "rat \<Rightarrow> string" where
  "show_number m =
     (let n = nat \<lfloor>m\<rfloor> in if of_nat n = m then show_nat n else show_nat n @ ''.5'')"

text \<open>Truthiness of a \<^verbatim>\<open>string | null\<close>: \<^verbatim>\<open>null\<close> and the empty string are falsy.\<close>

definition truthy :: "string option \<Rightarrow> bool" where
  "truthy v = (case v of None \<Rightarrow> False | Some str \<Rightarrow> str \<noteq> [])"

section \<open>Session and profile coordination\<close>

text \<open>
  The seed roster \<^verbatim>\<open>DEFAULT_USERS\<close> and the initial state of the component. The seed
  recipes \<^verbatim>\<open>INITIAL_RECIPES\<close> are a parameter of the initial state.
\<close>

definition DEFAULT_USERS :: "User list" where
  "DEFAULT_USERS =
     [\<lparr>user_id = ''susu'', name = ''Susu'', role = ADMIN,
       avatar = ''https://images.unsplash.com/photo-1544005313-94ddf0286df2?ixlib=rb-4.0.3&auto=format&fit=crop&w=400&q=80'',
       favorites = [], shoppingList = []\<rparr>,
      \<lparr>user_id = ''dad'', name = ''Papa Joe'', role = USER,
       avatar = ''https://images.unsplash.com/photo-1506794778202-cad84cf45f1d?ixlib=rb-4.0.3&auto=format&fit=crop&w=400&q=80'',
       favorites = [], shoppingList = []\<rparr>,
      \<lparr>user_id = ''kid1'', name = ''Sofia'', role = USER,
       avatar = ''https://images.unsplash.com/photo-1494790108377-be9c29b29330?ixlib=rb-4.0.3&auto=format&fit=crop&w=400&q=80'',
       favorites = [], shoppingList = []\<rparr>,
      \<lparr>user_id = ''kid2'', name = ''Leo'', role = USER,
       avatar = ''https://images.unsplash.com/photo-1507003211169-0a1dd7228f2d?ixlib=rb-4.0.3&auto=format&fit=crop&w=400&q=80'',
       favorites = [], shoppingList = []\<rparr>]"

definition initialState :: "Recipe list \<Rightarrow> AppState" where
  "initialState INITIAL_RECIPES =
     \<lparr>users = DEFAULT_USERS, currentUser = hd DEFAULT_USERS, recipes = INITIAL_RECIPES,
      view = HOME, selectedRecipe = None, isUserMenuOpen = False,
      isProfileModalOpen = False, servingsMultiplier = 1, currentStepIndex = 0,
      isGenerating = False, creationStep = MEDIA, draftRecipe = None,
      capturedImage = None, alerts = [], pendingImages = []\<rparr>"

text \<open>
  The effect \<^verbatim>\<open>useEffect(() => setUsers(prev => prev.map(u => u.id === currentUser.id ?
  currentUser : u)), [currentUser])\<close>. React runs it after every render in which
  \<^verbatim>\<open>currentUser\<close> is a new object. The model has values, not objects, and runs the
  effect after every call of \<^verbatim>\<open>setCurrentUser\<close>: where the call passes the object that is
  already the active profile and React skips the effect, the effect would leave a
  mirrored roster as it is. Persistence to \<^verbatim>\<open>localStorage\<close> is not modelled.
\<close>

definition mirror_effect :: "AppState \<Rightarrow> AppState" where
  "mirror_effect s =
     s\<lparr>users := map (\<lambda>u. if user_id u = user_id (currentUser s) then currentUser s else u)
                     (users s)\<rparr>"

definition handleSwitchUser :: "string \<Rightarrow> AppState \<Rightarrow> AppState" where
  "handleSwitchUser userId s =
     (case find (\<lambda>u. user_id u = userId) (users s) of
        Some user \<Rightarrow> s\<lparr>currentUser := user, isUserMenuOpen := False, view := HOME\<rparr>
      | None \<Rightarrow> s)"

text \<open>
  The avatars under "Who is cooking today?" call \<^verbatim>\<open>setCurrentUser(u)\<close> for the roster
  entry \<^verbatim>\<open>u\<close> they render; the entry is named by its position.
\<close>

definition whoIsCooking :: "nat \<Rightarrow> AppState \<Rightarrow> AppState" where
  "whoIsCooking k s = (if k < length (users s) then s\<lparr>currentUser := users s ! k\<rparr> else s)"

definition handleUpdateAvatar :: "string \<Rightarrow> AppState \<Rightarrow> AppState" where
  "handleUpdateAvatar imageBase64 s =
     (let updatedUser = (currentUser s)\<lparr>avatar := imageBase64\<rparr>
      in s\<lparr>currentUser := updatedUser,
           users := map (\<lambda>u. if user_id u = user_id updatedUser then updatedUser else u) (users s),
           isProfileModalOpen := False,
           isUserMenuOpen := False\<rparr>)"

text \<open>
  The favorite button of the recipe grid and of the detail view run the same code:
  \<^verbatim>\<open>isFav ? favorites.filter(id => id !== recipe.id) : [...favorites, recipe.id]\<close>,
  followed by \<^verbatim>\<open>setCurrentUser({...currentUser, favorites: newFavs})\<close>.
\<close>

definition toggleFavorite :: "string \<Rightarrow> User \<Rightarrow> User" where
  "toggleFavorite recipeId u =
     u\<lparr>favorites :=
         (if recipeId \<in> set (favorites u)
          then filter (\<lambda>fid. fid \<noteq> recipeId) (favorites u)
          else favorites u @ [recipeId])\<rparr>"

definition favoriteClick :: "string \<Rightarrow> AppState \<Rightarrow> AppState" where
  "favoriteClick recipeId s = s\<lparr>currentUser := toggleFavorite recipeId (currentUser s)\<rparr>"

text \<open>
  \<^verbatim>\<open>addToShoppingList\<close>. \<open>now k\<close> is what \<^verbatim>\<open>Date.now()\<close> returns while the \<open>k\<close>-th item
  is built and \<open>rnd k\<close> is its \<^verbatim>\<open>Math.random().toString(36).substr(2, 9)\<close>.
\<close>

definition shoppingItem :: "rat \<Rightarrow> nat \<Rightarrow> string \<Rightarrow> Ingredient \<Rightarrow> Ingredient" where
  "shoppingItem multiplier stamp suffix ing =
     ing\<lparr>item := item ing @ '' '' @
                  (if multiplier > 1 then ''(x'' @ show_number multiplier @ '')'' else []),
         ing_id := ''shop-'' @ show_nat stamp @ ''-'' @ suffix,
         checked := False\<rparr>"

definition addToShoppingList ::
  "(nat \<Rightarrow> nat) \<Rightarrow> (nat \<Rightarrow> string) \<Rightarrow> Ingredient list \<Rightarrow> AppState \<Rightarrow> AppState" where
  "addToShoppingList now rnd ings s =
     (let multiplier = servingsMultiplier s;
          newItems = map (\<lambda>(k, ing). shoppingItem multiplier (now k) (rnd k) ing)
                         (enumerate 0 ings)
      in s\<lparr>currentUser :=
              (currentUser s)\<lparr>shoppingList := shoppingList (currentUser s) @ newItems\<rparr>,
           alerts := alerts s @ [AddedToShoppingList]\<rparr>)"

definition toggleChecked :: "string \<Rightarrow> AppState \<Rightarrow> AppState" where
  "toggleChecked itemId s =
     s\<lparr>currentUser :=
         (currentUser s)\<lparr>shoppingList :=
            map (\<lambda>i. if ing_id i = itemId then i\<lparr>checked := \<not> checked i\<rparr> else i)
                (shoppingList (currentUser s))\<rparr>\<rparr>"

definition removeItem :: "string \<Rightarrow> AppState \<Rightarrow> AppState" where
  "removeItem itemId s =
     s\<lparr>currentUser :=
         (currentUser s)\<lparr>shoppingList :=
            filter (\<lambda>i. ing_id i \<noteq> itemId) (shoppingList (currentUser s))\<rparr>\<rparr>"

definition clearAll :: "AppState \<Rightarrow> AppState" where
  "clearAll s = s\<lparr>currentUser := (currentUser s)\<lparr>shoppingList := []\<rparr>\<rparr>"

text \<open>
  The user actions on the active profile. Each runs its handler; when the handler has
  called \<^verbatim>\<open>setCurrentUser\<close>, the mirror effect runs after it.
\<close>

datatype ProfileAction =
  SwitchUser string
| WhoIsCooking nat
| UpdateAvatar string
| FavoriteClick string
| AddAll "nat \<Rightarrow> nat" "nat \<Rightarrow> string" "Ingredient list"
| ToggleChecked string
| RemoveItem string
| ClearAll

fun profile_handler :: "ProfileAction \<Rightarrow> AppState \<Rightarrow> AppState" where
  "profile_handler (SwitchUser userId) s = handleSwitchUser userId s"
| "profile_handler (WhoIsCooking k) s = whoIsCooking k s"
| "profile_handler (UpdateAvatar img) s = handleUpdateAvatar img s"
| "profile_handler (FavoriteClick recipeId) s = favoriteClick recipeId s"
| "profile_handler (AddAll now rnd ings) s = addToShoppingList now rnd ings s"
| "profile_handler (ToggleChecked itemId) s = toggleChecked itemId s"
| "profile_handler (RemoveItem itemId) s = removeItem itemId s"
| "profile_handler ClearAll s = clearAll s"

fun calls_setCurrentUser :: "ProfileAction \<Rightarrow> AppState \<Rightarrow> bool" where
  "calls_setCurrentUser (SwitchUser userId) s =
     (find (\<lambda>u. user_id u = userId) (users s) \<noteq> None)"
| "calls_setCurrentUser (WhoIsCooking k) s = (k < length (users s))"
| "calls_setCurrentUser a s = True"

definition profile_step :: "ProfileAction \<Rightarrow> AppState \<Rightarrow> AppState" where
  "profile_step a s =
     (if calls_setCurrentUser a s then mirror_effect (profile_handler a s)
      else profile_handler a s)"

definition run_profile :: "ProfileAction list \<Rightarrow> AppState \<Rightarrow> AppState" where
  "run_profile acts s = foldl (\<lambda>st a. profile_step a st) s acts"

fun is_mutation :: "ProfileAction \<Rightarrow> bool" where
  "is_mutation (SwitchUser userId) = False"
| "is_mutation (WhoIsCooking k) = False"
| "is_mutation a = True"

text \<open>The mirror invariant: every roster entry with the active profile's id is the active profile.\<close>

definition mirrored :: "AppState \<Rightarrow> bool" where
  "mirrored s = list_all (\<lambda>u. user_id u \<noteq> user_id (currentUser s) \<or> u = currentUser s) (users s)"

definition in_roster :: "AppState \<Rightarrow> bool" where
  "in_roster s = (user_id (currentUser s) \<in> set (map user_id (users s)))"

section \<open>Draft orchestration\<close>

subsection \<open>The transcribe-and-structure call (geminiService.ts)\<close>

text \<open>
  \<^verbatim>\<open>generateRecipeFromMedia\<close> awaits \<^verbatim>\<open>ai.models.generateContent\<close>, throws
  \<^verbatim>\<open>"Failed to generate recipe from inputs"\<close> when the response has no text, and returns
  \<^verbatim>\<open>JSON.parse(response.text) as RecipeGenResponse\<close>. What the remote call does and how
  \<^verbatim>\<open>JSON.parse\<close> reads a text are parameters; a parsed value is taken to have the shape
  its type declares.
\<close>

datatype GenerationError = ApiFailure | EmptyResponse | JsonSyntaxError

datatype ApiReply = ApiThrows | ApiResponse "string option"

fun generateRecipeFromMedia ::
  "(string \<Rightarrow> RecipeGenResponse option) \<Rightarrow> ApiReply \<Rightarrow> GenerationError + RecipeGenResponse" where
  "generateRecipeFromMedia json_parse ApiThrows = Inl ApiFailure"
| "generateRecipeFromMedia json_parse (ApiResponse None) = Inl EmptyResponse"
| "generateRecipeFromMedia json_parse (ApiResponse (Some txt)) =
     (if txt = [] then Inl EmptyResponse
      else (case json_parse txt of
              None \<Rightarrow> Inl JsonSyntaxError
            | Some genData \<Rightarrow> Inr genData))"

subsection \<open>handleGenerateRecipe\<close>

text \<open>
  The draft that \<^verbatim>\<open>handleGenerateRecipe\<close> builds from the generated data. \<open>now 0\<close> is
  the reading of \<^verbatim>\<open>Date.now()\<close> for the id, \<open>now 1\<close> the one for \<^verbatim>\<open>createdAt\<close>, and
  \<open>now (2 + idx)\<close> the one for ingredient \<open>idx\<close>, in the order the object literal
  evaluates them. \<open>user\<close> and \<open>captured\<close> are \<^verbatim>\<open>currentUser\<close> and \<^verbatim>\<open>capturedImage\<close> as the
  handler's closure holds them.
\<close>

definition draftIngredient :: "nat \<Rightarrow> nat \<Rightarrow> GenIngredient \<Rightarrow> Ingredient" where
  "draftIngredient stamp idx ing =
     \<lparr>ing_id = ''ing-'' @ show_nat stamp @ ''-'' @ show_nat idx,
      item = gen_item ing, amount = gen_amount ing,
      estimatedCost = gen_estimatedCost ing, category = gen_category ing,
      checked = False\<rparr>"

definition newRecipe :: "User \<Rightarrow> string option \<Rightarrow> (nat \<Rightarrow> nat) \<Rightarrow> RecipeGenResponse \<Rightarrow> Recipe" where
  "newRecipe user captured now genData =
     \<lparr>rec_id = ''rec-'' @ show_nat (now 0),
      title = gen_title genData,
      description = gen_description genData,
      ingredients = map (\<lambda>(idx, ing). draftIngredient (now (2 + idx)) idx ing)
                        (enumerate 0 (gen_ingredients genData)),
      instructions = gen_instructions genData,
      instructionThumbnails = None,
      tips = gen_tips genData,
      imageUrl = (if truthy captured then captured else None),
      videoUrl = None,
      authorId = user_id user,
      createdAt = now 1,
      tags = gen_tags genData,
      servings = gen_servings genData,
      prepTime = gen_prepTime genData,
      difficulty = Some (gen_difficulty genData),
      calories = Some (gen_calories genData)\<rparr>"

text \<open>
  The handler is asynchronous. Up to its \<^verbatim>\<open>await\<close> it sets \<^verbatim>\<open>isGenerating\<close>; when the
  gateway call settles it resumes on the state of that moment, with the closure of the
  render in which it was called. On success it stores the draft, moves to the review
  step and, when no photo was captured and title and description are non-empty, sends
  the hero-image request without awaiting it. On failure it alerts. In both cases
  \<^verbatim>\<open>finally\<close> clears \<^verbatim>\<open>isGenerating\<close>.
\<close>

definition handleGenerateRecipe_call :: "AppState \<Rightarrow> AppState" where
  "handleGenerateRecipe_call s = s\<lparr>isGenerating := True\<rparr>"

definition handleGenerateRecipe_resume ::
  "User \<Rightarrow> string option \<Rightarrow> (nat \<Rightarrow> nat) \<Rightarrow> GenerationError + RecipeGenResponse \<Rightarrow>
   AppState \<Rightarrow> AppState" where
  "handleGenerateRecipe_resume user captured now outcome s =
     (case outcome of
        Inl e \<Rightarrow> s\<lparr>alerts := alerts s @ [RecipeNotUnderstood], isGenerating := False\<rparr>
      | Inr genData \<Rightarrow>
          (let draft = newRecipe user captured now genData;
               spawned =
                 (if \<not> truthy captured \<and> title draft \<noteq> [] \<and> description draft \<noteq> []
                  then [\<lparr>req_draft = rec_id draft, req_title = title draft,
                         req_description = description draft\<rparr>]
                  else [])
           in s\<lparr>draftRecipe := Some draft,
                creationStep := REVIEW,
                pendingImages := pendingImages s @ spawned,
                isGenerating := False\<rparr>))"

text \<open>
  The recorder keeps the \<^verbatim>\<open>onRecordingComplete\<close> of the render in which "Start Recording"
  was clicked, so the handler that runs on "Stop & Generate" has the closure of that
  render: \<open>startRecording\<close> gives the two values of it that the handler reads.
  \<open>handleGenerateRecipe\<close> is the handler with such a closure, run with no other event
  between its call and its resumption. \<open>recordAndGenerate\<close> is start, stop and settlement
  with no other event in between.
\<close>

definition startRecording :: "AppState \<Rightarrow> User \<times> string option" where
  "startRecording s = (currentUser s, capturedImage s)"

definition handleGenerateRecipe ::
  "User \<Rightarrow> string option \<Rightarrow> (nat \<Rightarrow> nat) \<Rightarrow> GenerationError + RecipeGenResponse \<Rightarrow>
   AppState \<Rightarrow> AppState" where
  "handleGenerateRecipe user captured now outcome s =
     handleGenerateRecipe_resume user captured now outcome (handleGenerateRecipe_call s)"

definition recordAndGenerate ::
  "(nat \<Rightarrow> nat) \<Rightarrow> GenerationError + RecipeGenResponse \<Rightarrow> AppState \<Rightarrow> AppState" where
  "recordAndGenerate now outcome s =
     handleGenerateRecipe (fst (startRecording s)) (snd (startRecording s)) now outcome s"

text \<open>
  Settlement of the \<open>k\<close>-th hero-image request in flight. A fulfilled promise runs
  \<^verbatim>\<open>url => setDraftRecipe(prev => prev ? ({ ...prev, imageUrl: url }) : null)\<close>; a rejected
  one (\<open>None\<close>) has no handler and changes nothing.
\<close>

definition imageSettled :: "nat \<Rightarrow> string option \<Rightarrow> AppState \<Rightarrow> AppState" where
  "imageSettled k result s =
     (if k < length (pendingImages s)
      then (let s' = s\<lparr>pendingImages := take k (pendingImages s) @ drop (Suc k) (pendingImages s)\<rparr>
            in (case result of
                  None \<Rightarrow> s'
                | Some url \<Rightarrow>
                    s'\<lparr>draftRecipe :=
                         (case draftRecipe s' of
                            Some prev \<Rightarrow> Some (prev\<lparr>imageUrl := Some url\<rparr>)
                          | None \<Rightarrow> None)\<rparr>))
      else s)"

subsection \<open>Review, commit and discard\<close>

text \<open>
  The inputs of the review form: each calls \<^verbatim>\<open>setDraftRecipe({...draftRecipe, f: v})\<close>.
  They are rendered only while a draft exists. The calories input stores the number that
  \<^verbatim>\<open>parseInt\<close> reads from the text typed.
\<close>

datatype DraftEdit =
  EditTitle string
| EditDescription string
| EditDifficulty Difficulty
| EditCalories rat

fun editDraft :: "DraftEdit \<Rightarrow> Recipe \<Rightarrow> Recipe" where
  "editDraft (EditTitle v) d = d\<lparr>title := v\<rparr>"
| "editDraft (EditDescription v) d = d\<lparr>description := v\<rparr>"
| "editDraft (EditDifficulty v) d = d\<lparr>difficulty := Some v\<rparr>"
| "editDraft (EditCalories v) d = d\<lparr>calories := Some v\<rparr>"

definition editField :: "DraftEdit \<Rightarrow> AppState \<Rightarrow> AppState" where
  "editField e s =
     (case draftRecipe s of
        None \<Rightarrow> s
      | Some d \<Rightarrow> s\<lparr>draftRecipe := Some (editDraft e d)\<rparr>)"

definition run_edits :: "DraftEdit list \<Rightarrow> AppState \<Rightarrow> AppState" where
  "run_edits es s = foldl (\<lambda>st e. editField e st) s es"

definition handleSaveRecipe :: "AppState \<Rightarrow> AppState" where
  "handleSaveRecipe s =
     (case draftRecipe s of
        None \<Rightarrow> s
      | Some d \<Rightarrow>
          (if title d \<noteq> []
           then s\<lparr>recipes := d # recipes s,
                  draftRecipe := None,
                  capturedImage := None,
                  creationStep := MEDIA,
                  view := HOME\<rparr>
           else s))"

text \<open>
  A click on "Save Recipe" at wall-clock time \<open>clock\<close>. The handler takes no reading of
  the clock: the time of the click is an argument only so that statements can name it.
\<close>

definition commit :: "nat \<Rightarrow> AppState \<Rightarrow> AppState" where
  "commit clock s = handleSaveRecipe s"

text \<open>The "Discard" button of the review step, and "Cancel" at the top of the create view.\<close>

definition discard :: "AppState \<Rightarrow> AppState" where
  "discard s = s\<lparr>creationStep := MEDIA, draftRecipe := None\<rparr>"

definition cancelCreate :: "AppState \<Rightarrow> AppState" where
  "cancelCreate s = s\<lparr>draftRecipe := None, view := HOME\<rparr>"

text \<open>"Create New Masterpiece", and the photo capture of the media step.\<close>

definition openCreate :: "AppState \<Rightarrow> AppState" where
  "openCreate s = s\<lparr>creationStep := MEDIA, view := CREATE_RECIPE\<rparr>"

definition capturePhoto :: "string \<Rightarrow> AppState \<Rightarrow> AppState" where
  "capturePhoto img s = s\<lparr>capturedImage := Some img\<rparr>"

section \<open>Recipe enrichment\<close>

subsection \<open>Batch thumbnails (geminiService.ts)\<close>

text \<open>
  \<^verbatim>\<open>generateInstructionThumbnails\<close> maps every instruction to a promise and awaits them
  with \<^verbatim>\<open>Promise.all\<close>, which keeps the order of the input. Each promise has its own
  \<^verbatim>\<open>try\<close>/\<^verbatim>\<open>catch\<close>: it returns the first inline image of the response as a data URL, the
  empty string when the response has none, and the empty string when the request throws.
  \<open>ai index inst\<close> is the outcome of the request for the instruction at \<open>index\<close>.
\<close>

datatype Part = InlineData string | TextPart string

datatype ContentReply = RequestThrows | Response "Part list"

fun firstInlineImage :: "Part list \<Rightarrow> string" where
  "firstInlineImage [] = []"
| "firstInlineImage (InlineData d # ps) = ''data:image/png;base64,'' @ d"
| "firstInlineImage (TextPart t # ps) = firstInlineImage ps"

definition stepThumbnail :: "ContentReply \<Rightarrow> string" where
  "stepThumbnail reply =
     (case reply of RequestThrows \<Rightarrow> [] | Response ps \<Rightarrow> firstInlineImage ps)"

definition generateInstructionThumbnails ::
  "(nat \<Rightarrow> string \<Rightarrow> ContentReply) \<Rightarrow> string list \<Rightarrow> string list" where
  "generateInstructionThumbnails ai insts =
     map (\<lambda>(index, inst). stepThumbnail (ai index inst)) (enumerate 0 insts)"

subsection \<open>handleVisualizeSteps and handleGenerateVideoForActiveRecipe\<close>

text \<open>
  Both handlers are asynchronous and hold \<^verbatim>\<open>selectedRecipe\<close> in their closure. The call
  part returns the state and the recipe captured (\<open>None\<close> when the handler returned
  early); the resume part runs when the gateway call settles, on the state of that moment.
  \<open>key_ok\<close> is false when the API-key dialog of the host page was dismissed.
\<close>

definition writeThrough :: "Recipe \<Rightarrow> AppState \<Rightarrow> AppState" where
  "writeThrough updatedRecipe s =
     s\<lparr>selectedRecipe := Some updatedRecipe,
       recipes := map (\<lambda>r. if rec_id r = rec_id updatedRecipe then updatedRecipe else r) (recipes s)\<rparr>"

definition handleVisualizeSteps_call :: "AppState \<Rightarrow> AppState \<times> Recipe option" where
  "handleVisualizeSteps_call s =
     (case selectedRecipe s of
        None \<Rightarrow> (s, None)
      | Some r \<Rightarrow> (s\<lparr>isGenerating := True\<rparr>, Some r))"

definition handleVisualizeSteps_resume ::
  "Recipe \<Rightarrow> GenerationError + string list \<Rightarrow> AppState \<Rightarrow> AppState" where
  "handleVisualizeSteps_resume captured outcome s =
     (case outcome of
        Inl e \<Rightarrow> s\<lparr>alerts := alerts s @ [VisualsFailed], isGenerating := False\<rparr>
      | Inr thumbnails \<Rightarrow>
          (writeThrough (captured\<lparr>instructionThumbnails := Some thumbnails\<rparr>) s)
            \<lparr>isGenerating := False\<rparr>)"

definition handleVisualizeSteps ::
  "(nat \<Rightarrow> string \<Rightarrow> ContentReply) \<Rightarrow> AppState \<Rightarrow> AppState" where
  "handleVisualizeSteps ai s =
     (case handleVisualizeSteps_call s of
        (s', None) \<Rightarrow> s'
      | (s', Some captured) \<Rightarrow>
          handleVisualizeSteps_resume captured
            (Inr (generateInstructionThumbnails ai (instructions captured))) s')"

definition handleGenerateVideoForActiveRecipe_call ::
  "bool \<Rightarrow> AppState \<Rightarrow> AppState \<times> Recipe option" where
  "handleGenerateVideoForActiveRecipe_call key_ok s =
     (case selectedRecipe s of
        None \<Rightarrow> (s, None)
      | Some r \<Rightarrow> (if key_ok then (s\<lparr>isGenerating := True\<rparr>, Some r) else (s, None)))"

definition handleGenerateVideoForActiveRecipe_resume ::
  "Recipe \<Rightarrow> GenerationError + string \<Rightarrow> AppState \<Rightarrow> AppState" where
  "handleGenerateVideoForActiveRecipe_resume captured outcome s =
     (case outcome of
        Inl e \<Rightarrow> s\<lparr>alerts := alerts s @ [VideoFailed], isGenerating := False\<rparr>
      | Inr url \<Rightarrow> (writeThrough (captured\<lparr>videoUrl := Some url\<rparr>) s)\<lparr>isGenerating := False\<rparr>)"

definition handleGenerateVideoForActiveRecipe ::
  "bool \<Rightarrow> GenerationError + string \<Rightarrow> AppState \<Rightarrow> AppState" where
  "handleGenerateVideoForActiveRecipe key_ok outcome s =
     (case handleGenerateVideoForActiveRecipe_call key_ok s of
        (s', None) \<Rightarrow> s'
      | (s', Some captured) \<Rightarrow> handleGenerateVideoForActiveRecipe_resume captured outcome s')"

section \<open>Detail view and cooking mode\<close>

text \<open>
  A click on a recipe card, the header logo, the two servings buttons, and the annotation
  \<^verbatim>\<open>{servingsMultiplier !== 1 && <span>(x{servingsMultiplier})</span>}\<close> that the detail
  view puts behind every amount.
\<close>

definition selectRecipe :: "Recipe \<Rightarrow> AppState \<Rightarrow> AppState" where
  "selectRecipe r s = s\<lparr>selectedRecipe := Some r, servingsMultiplier := 1, view := RECIPE_DETAIL\<rparr>"

definition goHome :: "AppState \<Rightarrow> AppState" where
  "goHome s = s\<lparr>view := HOME\<rparr>"

definition fewerServings :: "AppState \<Rightarrow> AppState" where
  "fewerServings s = s\<lparr>servingsMultiplier := max (1 / 2) (servingsMultiplier s - 1 / 2)\<rparr>"

definition moreServings :: "AppState \<Rightarrow> AppState" where
  "moreServings s = s\<lparr>servingsMultiplier := servingsMultiplier s + 1 / 2\<rparr>"

definition scaleAnnotation :: "rat \<Rightarrow> string option" where
  "scaleAnnotation m = (if m \<noteq> 1 then Some (''(x'' @ show_number m @ '')'') else None)"

text \<open>
  The two servings buttons as actions, and the state after a sequence of clicks.
\<close>

datatype ServingsClick = Minus | Plus

fun servings_click :: "ServingsClick \<Rightarrow> AppState \<Rightarrow> AppState" where
  "servings_click Minus s = fewerServings s"
| "servings_click Plus s = moreServings s"



subsection \<open>The displayed cost\<close>


fun bit_length :: "nat \<Rightarrow> nat" where
  "bit_length n = (if n = 0 then 0 else Suc (bit_length (n div 2)))"

declare bit_length.simps [simp del]

definition round53 :: "nat \<Rightarrow> int \<Rightarrow> Double" where
  "round53 n e =
     (let surplus = max (int (bit_length n) - 53) (- 1074 - e)
      in if surplus \<le> 0 then \<lparr>significand = n, exponent = e\<rparr>
         else (let d = 2 ^ nat surplus;
                   q = n div d;
                   r = n mod d;
                   up = (d < 2 * r \<or> (2 * r = d \<and> odd q))
               in \<lparr>significand = (if up then q + 1 else q), exponent = e + surplus\<rparr>))"

definition js_times :: "Double \<Rightarrow> Double \<Rightarrow> Double" where
  "js_times a b = round53 (significand a * significand b) (exponent a + exponent b)"

text \<open>
  The multiplier as the binary64 value it is: a multiple of one half has an integer
  double, which is the significand at exponent \<open>- 1\<close>.
\<close>

definition toDouble :: "rat \<Rightarrow> Double" where
  "toDouble m = \<lparr>significand = nat \<lfloor>2 * m\<rfloor>, exponent = - 1\<rparr>"







text \<open>
  Cooking mode: "Start Cooking Mode", the close button, and the two step buttons with
  \<^verbatim>\<open>Math.max(0, currentStepIndex - 1)\<close> and
  \<^verbatim>\<open>Math.min(selectedRecipe.instructions.length - 1, currentStepIndex + 1)\<close>.
\<close>

datatype CookingAction = StartCooking | PreviousStep | NextStep | ExitCooking

fun cooking_step :: "CookingAction \<Rightarrow> AppState \<Rightarrow> AppState" where
  "cooking_step StartCooking s = s\<lparr>currentStepIndex := 0, view := COOKING_MODE\<rparr>"
| "cooking_step PreviousStep s = s\<lparr>currentStepIndex := max 0 (currentStepIndex s - 1)\<rparr>"
| "cooking_step NextStep s =
     (case selectedRecipe s of
        None \<Rightarrow> s
      | Some r \<Rightarrow>
          s\<lparr>currentStepIndex :=
               min (int (length (instructions r)) - 1) (currentStepIndex s + 1)\<rparr>)"
| "cooking_step ExitCooking s = s\<lparr>view := RECIPE_DETAIL, currentStepIndex := 0\<rparr>"

definition run_cooking :: "CookingAction list \<Rightarrow> AppState \<Rightarrow> AppState" where
  "run_cooking acts s = foldl (\<lambda>st a. cooking_step a st) s acts"

text \<open>
  The read \<^verbatim>\<open>selectedRecipe.instructions[currentStepIndex]\<close> of \<^verbatim>\<open>renderCookingMode\<close>.
  The view renders nothing without a selected recipe; a JavaScript array read outside
  the array gives \<^verbatim>\<open>undefined\<close>.
\<close>

datatype StepRead = NotRendered | Undefined | Step string

definition currentStep :: "AppState \<Rightarrow> StepRead" where
  "currentStep s =
     (case selectedRecipe s of
        None \<Rightarrow> NotRendered
      | Some r \<Rightarrow>
          (if 0 \<le> currentStepIndex s \<and> currentStepIndex s < int (length (instructions r))
           then Step (instructions r ! nat (currentStepIndex s))
           else Undefined))"

definition step_in_bounds :: "AppState \<Rightarrow> bool" where
  "step_in_bounds s =
     (case selectedRecipe s of
        None \<Rightarrow> False
      | Some r \<Rightarrow> 0 \<le> currentStepIndex s \<and> currentStepIndex s < int (length (instructions r)))"

section \<open>The component as a transition system\<close>

subsection \<open>Handlers of the header and of the create view\<close>

text \<open>
  \<^verbatim>\<open>handleGenerateVideo\<close>, the video button of the review step. It returns early without
  a draft, with an empty title, and when the API-key dialog was dismissed; then it sets
  \<^verbatim>\<open>isGenerating\<close> and awaits the video. The call part says whether a request was sent.
  On resumption it runs \<^verbatim>\<open>setDraftRecipe(prev => prev ? ({ ...prev, videoUrl }) : null)\<close>
  or alerts, and clears \<^verbatim>\<open>isGenerating\<close>.
\<close>

definition handleGenerateVideo_call :: "bool \<Rightarrow> AppState \<Rightarrow> AppState \<times> bool" where
  "handleGenerateVideo_call key_ok s =
     (case draftRecipe s of
        None \<Rightarrow> (s, False)
      | Some d \<Rightarrow>
          (if title d = [] then (s, False)
           else if key_ok then (s\<lparr>isGenerating := True\<rparr>, True)
           else (s, False)))"

definition handleGenerateVideo_resume :: "GenerationError + string \<Rightarrow> AppState \<Rightarrow> AppState" where
  "handleGenerateVideo_resume outcome s =
     (case outcome of
        Inl e \<Rightarrow> s\<lparr>alerts := alerts s @ [DraftVideoFailed], isGenerating := False\<rparr>
      | Inr url \<Rightarrow>
          s\<lparr>draftRecipe :=
               (case draftRecipe s of
                  Some prev \<Rightarrow> Some (prev\<lparr>videoUrl := Some url\<rparr>)
                | None \<Rightarrow> None),
            isGenerating := False\<rparr>)"

text \<open>
  "Retake Photo", the shopping-bag button of the header, the profile button that opens
  and closes the user menu, "Edit My Avatar", and the two closing buttons of the profile
  editor.
\<close>

definition retakePhoto :: "AppState \<Rightarrow> AppState" where
  "retakePhoto s = s\<lparr>capturedImage := None\<rparr>"

definition openShoppingList :: "AppState \<Rightarrow> AppState" where
  "openShoppingList s = s\<lparr>view := SHOPPING_LIST\<rparr>"

definition toggleUserMenu :: "AppState \<Rightarrow> AppState" where
  "toggleUserMenu s = s\<lparr>isUserMenuOpen := \<not> isUserMenuOpen s\<rparr>"

definition editMyAvatar :: "AppState \<Rightarrow> AppState" where
  "editMyAvatar s = s\<lparr>isProfileModalOpen := True\<rparr>"

definition closeProfileEditor :: "AppState \<Rightarrow> AppState" where
  "closeProfileEditor s = s\<lparr>isProfileModalOpen := False\<rparr>"

subsection \<open>Sessions and events\<close>

text \<open>
  A session is the state of the component together with what is pending outside it: the
  handler closure that the running recorder holds since "Start Recording" (\<open>None\<close> when
  no recorder is mounted and recording), the closures of the \<^verbatim>\<open>handleGenerateRecipe\<close>
  calls that await the gateway, the number of \<^verbatim>\<open>handleGenerateVideo\<close> calls that await
  it, and the recipes captured by the \<^verbatim>\<open>handleVisualizeSteps\<close> and
  \<^verbatim>\<open>handleGenerateVideoForActiveRecipe\<close> calls that await it.
\<close>

record Session =
  app :: AppState
  recorder :: "(User \<times> string option) option"
  generations :: "(User \<times> string option) list"
  draftVideos :: nat
  visualizations :: "Recipe list"
  activeVideos :: "Recipe list"

definition startSession :: "Recipe list \<Rightarrow> Session" where
  "startSession INITIAL_RECIPES =
     \<lparr>app = initialState INITIAL_RECIPES, recorder = None, generations = [],
      draftVideos = 0, visualizations = [], activeVideos = []\<rparr>"

text \<open>
  The events: every click that reaches a handler of the component, and every settlement
  of a pending call. A settlement names the pending call by its position and carries
  what the environment supplies: the outcome of the gateway call and the readings of
  \<^verbatim>\<open>Date.now()\<close>. A click on "Save Recipe" carries the wall-clock time of the click.
\<close>

datatype Event =
  ClickLogo
| ClickShoppingBag
| ToggleUserMenu
| EditMyAvatar
| CloseProfileEditor
| Profile ProfileAction
| ClickCreate
| ClickCancel
| CapturePhoto string
| RetakePhoto
| StartRecording
| StopRecording
| GenerationSettles nat "GenerationError + RecipeGenResponse" "nat \<Rightarrow> nat"
| ImageSettles nat "string option"
| EditDraftField DraftEdit
| ClickDraftVideo bool
| DraftVideoSettles "GenerationError + string"
| ClickDiscard
| ClickSave nat
| ClickRecipe nat
| ClickBack
| ClickServings ServingsClick
| ClickVisualize
| VisualsSettle nat "nat \<Rightarrow> string \<Rightarrow> ContentReply"
| ClickVideo bool
| VideoSettles nat "GenerationError + string"
| Cook CookingAction
| ClickBrowse

text \<open>
  An event is enabled when the element it clicks is rendered: the header always, the
  menu entries while the menu is open, the profile editor while it is open, and the
  elements of a view while \<^verbatim>\<open>view\<close> names it. "Create New Masterpiece" is rendered for
  the role \<^verbatim>\<open>ADMIN\<close> only, the review form only with a draft, the detail view and cooking
  mode only with a selected recipe, the two video buttons only without a video, and
  "Visualize Steps" only without thumbnails. "Start Recording" is disabled while
  \<^verbatim>\<open>isGenerating\<close> is set, and the step buttons of cooking mode are disabled at the ends.
  A settlement is enabled when its call is pending. That the profile editor and cooking
  mode cover the page, and that a loading button may refuse clicks, is not used: the
  model has the runs of the application and possibly more.
\<close>

fun profile_enabled :: "ProfileAction \<Rightarrow> AppState \<Rightarrow> bool" where
  "profile_enabled (SwitchUser userId) s =
     (isUserMenuOpen s \<and> userId \<in> set (map user_id (users s)))"
| "profile_enabled (WhoIsCooking k) s = (view s = HOME \<and> k < length (users s))"
| "profile_enabled (UpdateAvatar img) s = isProfileModalOpen s"
| "profile_enabled (FavoriteClick recipeId) s =
     ((view s = HOME \<and> recipeId \<in> set (map rec_id (recipes s)))
      \<or> (view s = RECIPE_DETAIL \<and> map_option rec_id (selectedRecipe s) = Some recipeId))"
| "profile_enabled (AddAll now rnd ings) s =
     (view s = RECIPE_DETAIL \<and> map_option ingredients (selectedRecipe s) = Some ings)"
| "profile_enabled (ToggleChecked itemId) s =
     (view s = SHOPPING_LIST \<and> itemId \<in> set (map ing_id (shoppingList (currentUser s))))"
| "profile_enabled (RemoveItem itemId) s =
     (view s = SHOPPING_LIST \<and> itemId \<in> set (map ing_id (shoppingList (currentUser s))))"
| "profile_enabled ClearAll s = (view s = SHOPPING_LIST \<and> shoppingList (currentUser s) \<noteq> [])"

definition mediaStep :: "AppState \<Rightarrow> bool" where
  "mediaStep s = (view s = CREATE_RECIPE \<and> creationStep s = MEDIA)"

definition reviewStep :: "AppState \<Rightarrow> bool" where
  "reviewStep s = (view s = CREATE_RECIPE \<and> creationStep s = REVIEW \<and> draftRecipe s \<noteq> None)"

definition detailShown :: "AppState \<Rightarrow> bool" where
  "detailShown s = (view s = RECIPE_DETAIL \<and> selectedRecipe s \<noteq> None)"

fun cooking_enabled :: "CookingAction \<Rightarrow> AppState \<Rightarrow> bool" where
  "cooking_enabled StartCooking s = detailShown s"
| "cooking_enabled ExitCooking s = (view s = COOKING_MODE \<and> selectedRecipe s \<noteq> None)"
| "cooking_enabled PreviousStep s =
     (view s = COOKING_MODE \<and> selectedRecipe s \<noteq> None \<and> currentStepIndex s \<noteq> 0)"
| "cooking_enabled NextStep s =
     (view s = COOKING_MODE
      \<and> (case selectedRecipe s of
            None \<Rightarrow> False
          | Some r \<Rightarrow> currentStepIndex s \<noteq> int (length (instructions r)) - 1))"

fun enabled :: "Event \<Rightarrow> Session \<Rightarrow> bool" where
  "enabled ClickLogo ss = True"
| "enabled ClickShoppingBag ss = True"
| "enabled ToggleUserMenu ss = True"
| "enabled EditMyAvatar ss = isUserMenuOpen (app ss)"
| "enabled CloseProfileEditor ss = isProfileModalOpen (app ss)"
| "enabled (Profile a) ss = profile_enabled a (app ss)"
| "enabled ClickCreate ss = (view (app ss) = HOME \<and> role (currentUser (app ss)) = ADMIN)"
| "enabled ClickCancel ss = (view (app ss) = CREATE_RECIPE)"
| "enabled (CapturePhoto img) ss = mediaStep (app ss)"
| "enabled RetakePhoto ss = mediaStep (app ss)"
| "enabled StartRecording ss =
     (mediaStep (app ss) \<and> recorder ss = None \<and> \<not> isGenerating (app ss))"
| "enabled StopRecording ss = (mediaStep (app ss) \<and> recorder ss \<noteq> None)"
| "enabled (GenerationSettles k outcome now) ss = (k < length (generations ss))"
| "enabled (ImageSettles k result) ss = (k < length (pendingImages (app ss)))"
| "enabled (EditDraftField e) ss = reviewStep (app ss)"
| "enabled (ClickDraftVideo key_ok) ss =
     (reviewStep (app ss)
      \<and> (case draftRecipe (app ss) of None \<Rightarrow> False | Some d \<Rightarrow> \<not> truthy (videoUrl d)))"
| "enabled (DraftVideoSettles outcome) ss = (0 < draftVideos ss)"
| "enabled ClickDiscard ss = reviewStep (app ss)"
| "enabled (ClickSave clock) ss = reviewStep (app ss)"
| "enabled (ClickRecipe k) ss = (view (app ss) = HOME \<and> k < length (recipes (app ss)))"
| "enabled ClickBack ss = detailShown (app ss)"
| "enabled (ClickServings c) ss = detailShown (app ss)"
| "enabled ClickVisualize ss =
     (detailShown (app ss)
      \<and> (case selectedRecipe (app ss) of
            None \<Rightarrow> False
          | Some r \<Rightarrow> instructionThumbnails r = None))"
| "enabled (VisualsSettle k ai) ss = (k < length (visualizations ss))"
| "enabled (ClickVideo key_ok) ss =
     (detailShown (app ss)
      \<and> (case selectedRecipe (app ss) of None \<Rightarrow> False | Some r \<Rightarrow> \<not> truthy (videoUrl r)))"
| "enabled (VideoSettles k outcome) ss = (k < length (activeVideos ss))"
| "enabled (Cook a) ss = cooking_enabled a (app ss)"
| "enabled ClickBrowse ss =
     (view (app ss) = SHOPPING_LIST \<and> shoppingList (currentUser (app ss)) = [])"

text \<open>
  The effect of an event. "Stop & Generate" calls the handler that the recorder holds;
  the settlement of a generation runs the rest of that handler with its closure.
\<close>

definition without :: "nat \<Rightarrow> 'a list \<Rightarrow> 'a list" where
  "without k xs = take k xs @ drop (Suc k) xs"

fun fire :: "Event \<Rightarrow> Session \<Rightarrow> Session" where
  "fire ClickLogo ss = ss\<lparr>app := goHome (app ss)\<rparr>"
| "fire ClickShoppingBag ss = ss\<lparr>app := openShoppingList (app ss)\<rparr>"
| "fire ToggleUserMenu ss = ss\<lparr>app := toggleUserMenu (app ss)\<rparr>"
| "fire EditMyAvatar ss = ss\<lparr>app := editMyAvatar (app ss)\<rparr>"
| "fire CloseProfileEditor ss = ss\<lparr>app := closeProfileEditor (app ss)\<rparr>"
| "fire (Profile a) ss = ss\<lparr>app := profile_step a (app ss)\<rparr>"
| "fire ClickCreate ss = ss\<lparr>app := openCreate (app ss)\<rparr>"
| "fire ClickCancel ss = ss\<lparr>app := cancelCreate (app ss)\<rparr>"
| "fire (CapturePhoto img) ss = ss\<lparr>app := capturePhoto img (app ss)\<rparr>"
| "fire RetakePhoto ss = ss\<lparr>app := retakePhoto (app ss)\<rparr>"
| "fire StartRecording ss = ss\<lparr>recorder := Some (startRecording (app ss))\<rparr>"
| "fire StopRecording ss =
     (case recorder ss of
        None \<Rightarrow> ss
      | Some closure \<Rightarrow>
          ss\<lparr>app := handleGenerateRecipe_call (app ss),
             generations := generations ss @ [closure],
             recorder := None\<rparr>)"
| "fire (GenerationSettles k outcome now) ss =
     ss\<lparr>app := handleGenerateRecipe_resume (fst (generations ss ! k)) (snd (generations ss ! k))
                now outcome (app ss),
        generations := without k (generations ss)\<rparr>"
| "fire (ImageSettles k result) ss = ss\<lparr>app := imageSettled k result (app ss)\<rparr>"
| "fire (EditDraftField e) ss = ss\<lparr>app := editField e (app ss)\<rparr>"
| "fire (ClickDraftVideo key_ok) ss =
     (case handleGenerateVideo_call key_ok (app ss) of
        (s', started) \<Rightarrow>
          ss\<lparr>app := s', draftVideos := (if started then Suc (draftVideos ss) else draftVideos ss)\<rparr>)"
| "fire (DraftVideoSettles outcome) ss =
     ss\<lparr>app := handleGenerateVideo_resume outcome (app ss), draftVideos := draftVideos ss - 1\<rparr>"
| "fire ClickDiscard ss = ss\<lparr>app := discard (app ss)\<rparr>"
| "fire (ClickSave clock) ss = ss\<lparr>app := commit clock (app ss)\<rparr>"
| "fire (ClickRecipe k) ss = ss\<lparr>app := selectRecipe (recipes (app ss) ! k) (app ss)\<rparr>"
| "fire ClickBack ss = ss\<lparr>app := goHome (app ss)\<rparr>"
| "fire (ClickServings c) ss = ss\<lparr>app := servings_click c (app ss)\<rparr>"
| "fire ClickVisualize ss =
     (case handleVisualizeSteps_call (app ss) of
        (s', None) \<Rightarrow> ss\<lparr>app := s'\<rparr>
      | (s', Some captured) \<Rightarrow> ss\<lparr>app := s', visualizations := visualizations ss @ [captured]\<rparr>)"
| "fire (VisualsSettle k ai) ss =
     ss\<lparr>app := handleVisualizeSteps_resume (visualizations ss ! k)
                (Inr (generateInstructionThumbnails ai (instructions (visualizations ss ! k))))
                (app ss),
        visualizations := without k (visualizations ss)\<rparr>"
| "fire (ClickVideo key_ok) ss =
     (case handleGenerateVideoForActiveRecipe_call key_ok (app ss) of
        (s', None) \<Rightarrow> ss\<lparr>app := s'\<rparr>
      | (s', Some captured) \<Rightarrow> ss\<lparr>app := s', activeVideos := activeVideos ss @ [captured]\<rparr>)"
| "fire (VideoSettles k outcome) ss =
     ss\<lparr>app := handleGenerateVideoForActiveRecipe_resume (activeVideos ss ! k) outcome (app ss),
        activeVideos := without k (activeVideos ss)\<rparr>"
| "fire (Cook a) ss = ss\<lparr>app := cooking_step a (app ss)\<rparr>"
| "fire ClickBrowse ss = ss\<lparr>app := goHome (app ss)\<rparr>"

text \<open>
  The recorder is a component of the media step: when an event leaves that step the
  recorder is unmounted and its "Stop & Generate" button is gone. A step is an enabled
  event, and a run is a sequence of steps; it is \<open>None\<close> when one of its events is not
  enabled where it occurs.
\<close>

definition unmountRecorder :: "Session \<Rightarrow> Session" where
  "unmountRecorder ss = (if mediaStep (app ss) then ss else ss\<lparr>recorder := None\<rparr>)"

definition ui_step :: "Event \<Rightarrow> Session \<Rightarrow> Session option" where
  "ui_step e ss = (if enabled e ss then Some (unmountRecorder (fire e ss)) else None)"

definition run_ui :: "Event list \<Rightarrow> Session \<Rightarrow> Session option" where
  "run_ui es ss =
     foldl (\<lambda>st e. case st of None \<Rightarrow> None | Some x \<Rightarrow> ui_step e x) (Some ss) es"

text \<open>
  The clock readings of the generations that settled with a recipe in a run, oldest first,
  and of these the readings taken for the id.
\<close>

fun generated :: "Event list \<Rightarrow> (nat \<Rightarrow> nat) list" where
  "generated [] = []"
| "generated (GenerationSettles k (Inr genData) now # es) = now # generated es"
| "generated (e # es) = generated es"

definition stamps :: "Event list \<Rightarrow> nat list" where
  "stamps es = map (\<lambda>now. now 0) (generated es)"

subsection \<open>Invariants of a run\<close>

text \<open>
  The id of the one administrator of the seed roster. \<open>author_ok\<close>: every administrator
  of the roster has that id, and so has an active profile that is an administrator; the
  create view is shown to an administrator only; the draft, the closure of the recorder
  and the closures of the pending generations name that id as author.
\<close>

definition adminId :: string where
  "adminId = user_id (hd DEFAULT_USERS)"

definition author_ok :: "Session \<Rightarrow> bool" where
  "author_ok ss =
     ((\<forall>u \<in> set (users (app ss)). role u = ADMIN \<longrightarrow> user_id u = adminId)
      \<and> (role (currentUser (app ss)) = ADMIN \<longrightarrow> user_id (currentUser (app ss)) = adminId)
      \<and> (view (app ss) = CREATE_RECIPE \<longrightarrow> role (currentUser (app ss)) = ADMIN)
      \<and> (\<forall>d. draftRecipe (app ss) = Some d \<longrightarrow> authorId d = adminId)
      \<and> (\<forall>c. recorder ss = Some c \<longrightarrow> user_id (fst c) = adminId)
      \<and> (\<forall>c \<in> set (generations ss). user_id (fst c) = adminId))"

text \<open>
  \<open>kept s s'\<close>: from \<open>s\<close> to \<open>s'\<close> the ids of the collection are the same, and the draft is
  gone or has the id and the creation time it had. \<open>provenance\<close>: the draft has the id
  and the creation time that one of the settled generations of the run gave it.
  \<open>fresh\<close>: no id of the collection is \<^verbatim>\<open>rec-\<close> followed by a reading later than \<open>t0\<close> and
  than all readings of the run, and the id of the draft is not in the collection.
\<close>

definition kept :: "AppState \<Rightarrow> AppState \<Rightarrow> bool" where
  "kept s s' =
     (map rec_id (recipes s') = map rec_id (recipes s)
      \<and> (draftRecipe s' = None
          \<or> (\<exists>d d'. draftRecipe s = Some d \<and> draftRecipe s' = Some d'
                \<and> rec_id d' = rec_id d \<and> createdAt d' = createdAt d)))"

definition provenance :: "Event list \<Rightarrow> Session \<Rightarrow> bool" where
  "provenance es ss =
     (\<forall>d. draftRecipe (app ss) = Some d \<longrightarrow>
        (\<exists>now \<in> set (generated es).
           rec_id d = ''rec-'' @ show_nat (now 0) \<and> createdAt d = now 1))"

definition fresh :: "nat \<Rightarrow> Event list \<Rightarrow> Session \<Rightarrow> bool" where
  "fresh t0 es ss =
     ((\<forall>r \<in> set (recipes (app ss)). \<forall>t. (\<forall>x \<in> set (t0 # stamps es). x < t) \<longrightarrow>
          rec_id r \<noteq> ''rec-'' @ show_nat t)
      \<and> (\<forall>d. draftRecipe (app ss) = Some d \<longrightarrow> rec_id d \<notin> set (map rec_id (recipes (app ss)))))"

text \<open>A session with nothing pending but a recorder closure and generations.\<close>

definition session :: "AppState \<Rightarrow> (User \<times> string option) option \<Rightarrow> (User \<times> string option) list \<Rightarrow> Session" where
  "session s rec gens =
     \<lparr>app = s, recorder = rec, generations = gens, draftVideos = 0, visualizations = [],
      activeVideos = []\<rparr>"

section \<open>Example data\<close>

text \<open>
  Values for concrete runs: a clock that returns the same reading throughout one handler
  run, the garlic of the seed recipe \<^verbatim>\<open>rec-1\<close>, and small recipes and generated data.
\<close>

definition steadyClock :: "nat \<Rightarrow> nat \<Rightarrow> nat" where
  "steadyClock t k = t"

definition fixedSuffix :: "string \<Rightarrow> nat \<Rightarrow> string" where
  "fixedSuffix suffix k = suffix"

definition garlic :: Ingredient where
  "garlic = \<lparr>ing_id = ''ing-3'', item = ''Garlic'', amount = ''5 cloves'',
             estimatedCost = \<lparr>significand = 1, exponent = - 1\<rparr>, category = ''Produce'', checked = False\<rparr>"

definition exampleRecipe :: "string \<Rightarrow> string \<Rightarrow> string list \<Rightarrow> Recipe" where
  "exampleRecipe rid ttl steps =
     \<lparr>rec_id = rid, title = ttl, description = ''A family dish'',
      ingredients = [garlic], instructions = steps, instructionThumbnails = None,
      tips = ''Take your time'', imageUrl = None, videoUrl = None, authorId = ''susu'',
      createdAt = 1, tags = [''Dinner''], servings = 4, prepTime = ''20 mins'',
      difficulty = Some Easy, calories = Some 320\<rparr>"

definition garlicBread :: Recipe where
  "garlicBread = exampleRecipe ''rec-7'' ''Garlic Bread'' [''Toast the bread with garlic butter.'']"

definition pancakes :: Recipe where
  "pancakes = exampleRecipe ''rec-2'' ''Lemon Ricotta Pancakes''
     [''Whisk flour, sugar, and baking powder.'',
      ''In another bowl, mix ricotta, eggs, milk, and lemon zest.'',
      ''Fold wet into dry ingredients gently. Do not overmix!'',
      ''Cook on buttered griddle until golden.'']"

definition exampleGenData :: "string \<Rightarrow> RecipeGenResponse" where
  "exampleGenData ttl =
     \<lparr>gen_title = ttl, gen_description = ''Warm and simple'',
      gen_ingredients = [\<lparr>gen_item = ''Garlic'', gen_amount = ''5 cloves'',
                          gen_estimatedCost = \<lparr>significand = 1, exponent = - 1\<rparr>,
                          gen_category = ''Produce''\<rparr>],
      gen_instructions = [''Chop.'', ''Serve.''], gen_tips = ''Use fresh garlic'',
      gen_servings = 2, gen_prepTime = ''10 mins'', gen_tags = [''Quick''],
      gen_difficulty = Easy, gen_calories = 200\<rparr>"

text \<open>
  The outcomes of three thumbnail requests of which the second throws, and the fixed
  clock and suffix as actions take them.
\<close>

fun secondFails :: "nat \<Rightarrow> string \<Rightarrow> ContentReply" where
  "secondFails index inst =
     (if index = 1 then RequestThrows else Response [TextPart ''ok'', InlineData inst])"

text \<open>A \<^verbatim>\<open>JSON.parse\<close> that throws on every text.\<close>

definition rejectAll :: "string \<Rightarrow> RecipeGenResponse option" where
  "rejectAll txt = None"

text \<open>
  The binary64 value nearest to 0.89, which is what \<^verbatim>\<open>JSON.parse\<close> makes of the text
  \<^verbatim>\<open>0.89\<close>, an ingredient that costs it, and a recipe of that ingredient.
\<close>

definition cost089 :: Double where
  "cost089 = \<lparr>significand = 8016407336719483, exponent = - 53\<rparr>"

definition butter :: Ingredient where
  "butter = \<lparr>ing_id = ''ing-9'', item = ''Butter'', amount = ''1 stick'',
             estimatedCost = cost089, category = ''Dairy'', checked = False\<rparr>"


text \<open>
  A run of the create view: the administrator opens it, records a narration, the
  generation settles at clock reading 1000 with a recipe, and the title is retyped. The
  state of the component after it.
\<close>

definition toastEvents :: "string \<Rightarrow> Event list" where
  "toastEvents ttl =
     [ClickCreate, StartRecording, StopRecording,
      GenerationSettles 0 (Inr (exampleGenData ''Garlic Toast'')) (steadyClock 1000),
      EditDraftField (EditTitle ttl)]"

definition reviewedToast :: "string \<Rightarrow> AppState" where
  "reviewedToast ttl =
     editField (EditTitle ttl)
       (recordAndGenerate (steadyClock 1000) (Inr (exampleGenData ''Garlic Toast''))
          (openCreate (initialState [pancakes])))"

section \<open>Properties of the profile coordinator\<close>

lemma toggleFavorite_members:
  "set (favorites (toggleFavorite r u)) =
     (if r \<in> set (favorites u) then set (favorites u) - {r} else insert r (set (favorites u)))"
  by (auto simp: toggleFavorite_def)

lemma currentUser_mirror_effect: "currentUser (mirror_effect s) = currentUser s"
  by (simp add: mirror_effect_def)

lemma users_mirror_effect:
  "users (mirror_effect s) =
     map (\<lambda>u. if user_id u = user_id (currentUser s) then currentUser s else u) (users s)"
  by (simp add: mirror_effect_def)

lemma mirrored_mirror_effect: "mirrored (mirror_effect s)"
  by (auto simp: mirrored_def mirror_effect_def list_all_iff)

lemma mirror_effect_idle: "mirrored s \<Longrightarrow> mirror_effect s = s"
proof -
  assume m: "mirrored s"
  have "map (\<lambda>u. if user_id u = user_id (currentUser s) then currentUser s else u) (users s) = users s"
    using m by (intro map_idI) (auto simp: mirrored_def list_all_iff)
  then show ?thesis by (simp add: mirror_effect_def)
qed

lemma ids_mirror_effect: "map user_id (users (mirror_effect s)) = map user_id (users s)"
  by (simp add: mirror_effect_def comp_def cong: map_cong)

lemma ids_profile_handler: "map user_id (users (profile_handler a s)) = map user_id (users s)"
  by (cases a)
     (auto simp: handleSwitchUser_def whoIsCooking_def handleUpdateAvatar_def favoriteClick_def
        addToShoppingList_def toggleChecked_def removeItem_def clearAll_def Let_def comp_def
        split: option.splits)

lemma ids_profile_step: "map user_id (users (profile_step a s)) = map user_id (users s)"
  by (simp add: profile_step_def ids_mirror_effect ids_profile_handler)

lemma current_id_mutation:
  "is_mutation a \<Longrightarrow> user_id (currentUser (profile_handler a s)) = user_id (currentUser s)"
  by (cases a)
     (auto simp: handleUpdateAvatar_def favoriteClick_def toggleFavorite_def
        addToShoppingList_def toggleChecked_def removeItem_def clearAll_def Let_def)

lemma find_roster_entry: "find P xs = Some x \<Longrightarrow> x \<in> set xs \<and> P x"
  by (induction xs) (auto split: if_splits)

lemma in_roster_handler: "in_roster s \<Longrightarrow> in_roster (profile_handler a s)"
proof (cases "is_mutation a")
  case True
  assume "in_roster s"
  then show ?thesis
    using current_id_mutation [OF True, of s] ids_profile_handler [of a s]
    by (simp add: in_roster_def)
next
  case False
  assume r: "in_roster s"
  from False show ?thesis
  proof (cases a)
    case (SwitchUser uid)
    then show ?thesis using r
      by (auto simp: in_roster_def handleSwitchUser_def split: option.splits
               dest!: find_roster_entry)
  next
    case (WhoIsCooking k)
    then show ?thesis using r
      by (auto simp: in_roster_def whoIsCooking_def)
  qed auto
qed

lemma in_roster_mirror_effect: "in_roster (mirror_effect s) = in_roster s"
  unfolding in_roster_def ids_mirror_effect currentUser_mirror_effect ..

lemma in_roster_step: "in_roster s \<Longrightarrow> in_roster (profile_step a s)"
  using in_roster_handler [of s a]
  by (simp add: profile_step_def in_roster_mirror_effect)

lemma not_called_unchanged: "\<not> calls_setCurrentUser a s \<Longrightarrow> profile_handler a s = s"
  by (cases a) (auto simp: handleSwitchUser_def whoIsCooking_def)

lemma calls_mutation: "is_mutation a \<Longrightarrow> calls_setCurrentUser a s"
  by (cases a) simp_all

lemma profile_step_mutation:
  "is_mutation a \<Longrightarrow> profile_step a s = mirror_effect (profile_handler a s)"
  by (simp add: profile_step_def calls_mutation)

lemma mirrored_step: "mirrored s \<Longrightarrow> mirrored (profile_step a s)"
  by (simp add: profile_step_def mirrored_mirror_effect not_called_unchanged)

lemma run_profile_Cons: "run_profile (a # acts) s = run_profile acts (profile_step a s)"
  by (simp add: run_profile_def)

lemma run_profile_Nil: "run_profile [] s = s"
  by (simp add: run_profile_def)

lemma run_profile_invariant:
  "mirrored s \<Longrightarrow> in_roster s \<Longrightarrow> mirrored (run_profile acts s) \<and> in_roster (run_profile acts s)"
  by (induction acts arbitrary: s)
     (simp_all add: run_profile_Nil run_profile_Cons mirrored_step in_roster_step)

lemma find_current:
  assumes "mirrored s" "in_roster s"
  shows "find (\<lambda>u. user_id u = user_id (currentUser s)) (users s) = Some (currentUser s)"
proof -
  have "\<exists>u. find (\<lambda>u. user_id u = user_id (currentUser s)) (users s) = Some u"
    using assms(2) by (cases "find (\<lambda>u. user_id u = user_id (currentUser s)) (users s)")
                      (auto simp: in_roster_def find_None_iff)
  then obtain u where u: "find (\<lambda>u. user_id u = user_id (currentUser s)) (users s) = Some u"
    by blast
  then have "u \<in> set (users s)" "user_id u = user_id (currentUser s)"
    by (auto dest: find_roster_entry)
  with assms(1) have "u = currentUser s"
    by (auto simp: mirrored_def list_all_iff)
  with u show ?thesis by simp
qed

lemma switch_to_current:
  assumes "mirrored s" "in_roster s"
  shows "currentUser (profile_step (SwitchUser (user_id (currentUser s))) s) = currentUser s"
  using find_current [OF assms]
  by (simp add: profile_step_def currentUser_mirror_effect handleSwitchUser_def)

lemma find_other_after_mirror:
  "user_id c \<noteq> p \<Longrightarrow>
   find (\<lambda>u. user_id u = p) (map (\<lambda>u. if user_id u = user_id c then c else u) xs)
     = find (\<lambda>u. user_id u = p) xs"
  by (induction xs) auto

lemma switch_round_trip:
  assumes m: "mirrored s" and r: "in_roster s"
  shows "currentUser (profile_step (SwitchUser (user_id (currentUser s)))
                        (profile_step (SwitchUser p2) s)) = currentUser s"
proof (cases "find (\<lambda>u. user_id u = p2) (users s)")
  case None
  then have "profile_step (SwitchUser p2) s = s"
    using mirror_effect_idle [OF m] by (simp add: profile_step_def handleSwitchUser_def)
  then show ?thesis using switch_to_current [OF m r] by simp
next
  case (Some u2)
  let ?t = "profile_step (SwitchUser p2) s"
  have u2: "user_id u2 = p2" using Some by (auto dest: find_roster_entry)
  have cu: "currentUser ?t = u2"
    using Some by (simp add: profile_step_def currentUser_mirror_effect handleSwitchUser_def)
  have us: "users ?t = map (\<lambda>u. if user_id u = user_id u2 then u2 else u) (users s)"
    using Some by (simp add: profile_step_def mirror_effect_def handleSwitchUser_def)
  show ?thesis
  proof (cases "p2 = user_id (currentUser s)")
    case True
    with Some find_current [OF m r] have "u2 = currentUser s" by simp
    with cu have "currentUser ?t = currentUser s" by simp
    moreover have "mirrored ?t" "in_roster ?t"
      by (simp_all add: mirrored_step m in_roster_step r)
    ultimately show ?thesis using switch_to_current [of ?t] by simp
  next
    case False
    then have "find (\<lambda>u. user_id u = user_id (currentUser s)) (users ?t)
                 = Some (currentUser s)"
      using find_other_after_mirror [of u2 "user_id (currentUser s)" "users s"] u2
            find_current [OF m r]
      by (simp add: us)
    then show ?thesis
      by (simp add: profile_step_def currentUser_mirror_effect handleSwitchUser_def)
  qed
qed

lemma others_unchanged_step:
  assumes "is_mutation a" "k < length (users s)" "user_id (users s ! k) \<noteq> user_id (currentUser s)"
  shows "users (profile_step a s) ! k = users s ! k"
proof -
  have "users (profile_handler a s) ! k = users s ! k"
    using assms
    by (cases a)
       (auto simp: handleUpdateAvatar_def favoriteClick_def addToShoppingList_def
          toggleChecked_def removeItem_def clearAll_def Let_def)
  moreover have "length (users (profile_handler a s)) = length (users s)"
    using ids_profile_handler [of a s] by (metis length_map)
  ultimately show ?thesis
    using assms current_id_mutation [OF assms(1), of s]
    by (simp add: profile_step_mutation users_mirror_effect)
qed

lemma length_users_step: "length (users (profile_step a s)) = length (users s)"
  using ids_profile_step [of a s] by (metis length_map)

lemma current_id_step:
  "is_mutation a \<Longrightarrow> user_id (currentUser (profile_step a s)) = user_id (currentUser s)"
  by (simp add: profile_step_mutation currentUser_mirror_effect current_id_mutation)

lemma others_unchanged_run:
  "list_all is_mutation acts \<Longrightarrow> k < length (users s) \<Longrightarrow>
   user_id (users s ! k) \<noteq> user_id (currentUser s) \<Longrightarrow>
   users (run_profile acts s) ! k = users s ! k"
proof (induction acts arbitrary: s)
  case Nil
  then show ?case by (simp add: run_profile_Nil)
next
  case (Cons a acts)
  from Cons.prems have a: "is_mutation a" and rest: "list_all is_mutation acts" by simp_all
  have keep: "users (profile_step a s) ! k = users s ! k"
    using others_unchanged_step [OF a Cons.prems(2,3)] .
  have "users (run_profile acts (profile_step a s)) ! k = users (profile_step a s) ! k"
    using Cons.prems keep
    by (intro Cons.IH [OF rest]) (simp_all add: length_users_step current_id_step [OF a])
  with keep show ?case by (simp add: run_profile_Cons)
qed

lemma length_users_run: "length (users (run_profile acts s)) = length (users s)"
  by (induction acts arbitrary: s) (simp_all add: run_profile_Nil run_profile_Cons length_users_step)

lemma initialState_mirrored: "mirrored (initialState rs) \<and> in_roster (initialState rs)"
  by (simp add: mirrored_def in_roster_def initialState_def DEFAULT_USERS_def)

subsection \<open>The active profile is mirrored into the roster\<close>

text \<open>
  Claim C3. Start from a state in which the roster entry of the active profile equals
  the active profile (the initial state is one). After any sequence of profile actions
  (favorite toggles, avatar update, shopping-list edits, profile switches) every roster
  entry with the active profile's id still equals the active profile. Switching to any
  profile \<open>p2\<close> and back then restores the active profile exactly, favorites and
  shopping list included. The roster keeps its length, and a sequence of mutations leaves
  every roster entry with another id as it was.
\<close>

theorem active_profile_mirrored:
  assumes "mirrored s0" and "in_roster s0"
  shows "mirrored (run_profile acts s0)
    \<and> currentUser (profile_step (SwitchUser (user_id (currentUser (run_profile acts s0))))
                     (profile_step (SwitchUser p2) (run_profile acts s0)))
        = currentUser (run_profile acts s0)
    \<and> length (users (run_profile acts s0)) = length (users s0)
    \<and> (list_all is_mutation acts \<longrightarrow>
         (\<forall>k < length (users s0).
            user_id (users s0 ! k) \<noteq> user_id (currentUser s0) \<longrightarrow>
            users (run_profile acts s0) ! k = users s0 ! k))"
  using run_profile_invariant [OF assms, of acts]
  by (auto simp: switch_round_trip length_users_run others_unchanged_run)

text \<open>
  Susu marks \<^verbatim>\<open>rec-1\<close> as a favorite and adds garlic to her shopping list; after the
  switch to Papa Joe and back her favorites are still \<^verbatim>\<open>rec-1\<close>, and Papa Joe's roster
  entry is the seed entry.
\<close>

theorem active_profile_mirrored_witness:
  "mirrored (initialState []) \<and> in_roster (initialState [])
   \<and> mirrored (run_profile [FavoriteClick ''rec-1'',
                  AddAll (steadyClock 1000) (fixedSuffix ''k3x9q2m1a'') [garlic]] (initialState []))
   \<and> favorites (currentUser
        (profile_step (SwitchUser ''susu'') (profile_step (SwitchUser ''dad'')
           (run_profile [FavoriteClick ''rec-1'',
              AddAll (steadyClock 1000) (fixedSuffix ''k3x9q2m1a'') [garlic]] (initialState []))))) = [''rec-1'']
   \<and> list_all is_mutation [FavoriteClick ''rec-1'',
          AddAll (steadyClock 1000) (fixedSuffix ''k3x9q2m1a'') [garlic]]
   \<and> users (run_profile [FavoriteClick ''rec-1'',
          AddAll (steadyClock 1000) (fixedSuffix ''k3x9q2m1a'') [garlic]] (initialState [])) ! 1
       = DEFAULT_USERS ! 1"
proof -
  let ?acts = "[FavoriteClick ''rec-1'', AddAll (steadyClock 1000) (fixedSuffix ''k3x9q2m1a'') [garlic]]"
  have init: "mirrored (initialState [])" "in_roster (initialState [])"
    using initialState_mirrored by simp_all
  have cur: "user_id (currentUser (run_profile ?acts (initialState []))) = ''susu''"
    by (simp add: run_profile_def profile_step_def mirror_effect_def favoriteClick_def
        toggleFavorite_def addToShoppingList_def initialState_def DEFAULT_USERS_def Let_def)
  have favs: "favorites (currentUser (run_profile ?acts (initialState []))) = [''rec-1'']"
    by (simp add: run_profile_def profile_step_def mirror_effect_def favoriteClick_def
        toggleFavorite_def addToShoppingList_def initialState_def DEFAULT_USERS_def Let_def)
  have muts: "list_all is_mutation ?acts" by simp
  have other: "1 < length (users (initialState [])) \<and>
      user_id (users (initialState []) ! 1) \<noteq> user_id (currentUser (initialState []))
      \<and> users (initialState []) ! 1 = DEFAULT_USERS ! 1"
    by (simp add: initialState_def DEFAULT_USERS_def)
  note t = active_profile_mirrored [OF init, of ?acts "''dad''"]
  from t have m: "mirrored (run_profile ?acts (initialState []))" by blast
  from t have rt: "currentUser (profile_step (SwitchUser ''susu'') (profile_step (SwitchUser ''dad'')
           (run_profile ?acts (initialState [])))) = currentUser (run_profile ?acts (initialState []))"
    unfolding cur by blast
  from t muts other have fr: "users (run_profile ?acts (initialState [])) ! 1 = DEFAULT_USERS ! 1"
    by (metis (no_types, lifting))
  show ?thesis
    using init m rt favs muts fr by simp
qed

subsection \<open>Toggling a favorite twice\<close>

text \<open>
  Claim C9. The favorite button is a membership toggle on the active profile's favorites:
  one click changes whether the recipe id is a member and nothing else about the set, and
  two clicks in succession give back the original set of favorites, for the profile
  alone and for the active profile of the running application.
\<close>

theorem toggleFavorite_twice:
  "set (favorites (toggleFavorite r (toggleFavorite r u))) = set (favorites u)
   \<and> (r \<in> set (favorites (toggleFavorite r u))) = (r \<notin> set (favorites u))
   \<and> set (favorites (toggleFavorite r u)) - {r} = set (favorites u) - {r}
   \<and> set (favorites (currentUser (profile_step (FavoriteClick r) (profile_step (FavoriteClick r) s))))
       = set (favorites (currentUser s))"
  by (auto simp: toggleFavorite_members profile_step_def currentUser_mirror_effect favoriteClick_def)

section \<open>Properties of recipe enrichment\<close>

lemma length_thumbnails: "length (generateInstructionThumbnails ai insts) = length insts"
  by (simp add: generateInstructionThumbnails_def)

lemma nth_thumbnails:
  "i < length insts \<Longrightarrow>
   generateInstructionThumbnails ai insts ! i = stepThumbnail (ai i (insts ! i))"
  by (simp add: generateInstructionThumbnails_def nth_enumerate_eq)

lemma writeThrough_selected: "selectedRecipe (writeThrough r s) = Some r"
  by (simp add: writeThrough_def)

lemma writeThrough_length: "length (recipes (writeThrough r s)) = length (recipes s)"
  by (simp add: writeThrough_def)

lemma writeThrough_nth:
  "k < length (recipes s) \<Longrightarrow>
   recipes (writeThrough r s) ! k = (if rec_id (recipes s ! k) = rec_id r then r else recipes s ! k)"
  by (simp add: writeThrough_def)

lemma writeThrough_frame:
  "(writeThrough r s)\<lparr>selectedRecipe := selectedRecipe s, recipes := recipes s\<rparr> = s"
  by (simp add: writeThrough_def)

lemma list_of_three: "length xs = 3 \<Longrightarrow> xs = [xs ! 0, xs ! 1, xs ! 2]"
  by (auto simp: length_Suc_conv numeral_3_eq_3 numeral_2_eq_2)

subsection \<open>One thumbnail per instruction\<close>

text \<open>
  Claim C5. The batch returns exactly one result per instruction, in the order of the
  instructions: the result at an index is determined by the outcome of that index's
  request alone, and it is the empty string when that request throws, whatever the
  other requests do. When \<^verbatim>\<open>handleVisualizeSteps\<close> runs on a selected recipe, the
  displayed recipe carries the batch result, whose length is the number of its
  instructions, and so does every entry of the collection with the recipe's id.
\<close>

theorem thumbnails_one_per_instruction:
  "length (generateInstructionThumbnails ai insts) = length insts
   \<and> (\<forall>i < length insts.
         generateInstructionThumbnails ai insts ! i = stepThumbnail (ai i (insts ! i)))
   \<and> (\<forall>i < length insts.
         ai i (insts ! i) = RequestThrows \<longrightarrow> generateInstructionThumbnails ai insts ! i = [])
   \<and> (selectedRecipe s = Some r \<longrightarrow>
        (\<exists>t. selectedRecipe (handleVisualizeSteps ai s) = Some (r\<lparr>instructionThumbnails := Some t\<rparr>)
             \<and> t = generateInstructionThumbnails ai (instructions r)
             \<and> length t = length (instructions r))
        \<and> (\<forall>k < length (recipes s).
              rec_id (recipes s ! k) = rec_id r \<longrightarrow>
              (\<exists>t. instructionThumbnails (recipes (handleVisualizeSteps ai s) ! k) = Some t
                   \<and> length t = length (instructions (recipes (handleVisualizeSteps ai s) ! k)))))"
  by (auto simp: length_thumbnails nth_thumbnails stepThumbnail_def handleVisualizeSteps_def
        handleVisualizeSteps_call_def handleVisualizeSteps_resume_def writeThrough_def)

text \<open>
  Three steps of which the second fails: three results, the second empty. The pancakes
  have four instructions and get four thumbnails; the other recipe gets none.
\<close>

theorem thumbnails_one_per_instruction_witness:
  "generateInstructionThumbnails secondFails [''a'', ''b'', ''c'']
     = [''data:image/png;base64,a'', [], ''data:image/png;base64,c'']
   \<and> secondFails 1 ([''a'', ''b'', ''c''] ! 1) = RequestThrows
   \<and> selectedRecipe (selectRecipe pancakes (initialState [garlicBread, pancakes])) = Some pancakes
   \<and> map (map_option length \<circ> instructionThumbnails)
        (recipes (handleVisualizeSteps secondFails
           (selectRecipe pancakes (initialState [garlicBread, pancakes])))) = [None, Some 4]
   \<and> map_option (map_option length \<circ> instructionThumbnails)
        (selectedRecipe (handleVisualizeSteps secondFails
           (selectRecipe pancakes (initialState [garlicBread, pancakes])))) = Some (Some 4)
   \<and> length (instructions pancakes) = 4"
proof -
  let ?s = "selectRecipe pancakes (initialState [garlicBread, pancakes])"
  let ?s' = "handleVisualizeSteps secondFails ?s"
  note t = thumbnails_one_per_instruction
             [of secondFails "[''a'', ''b'', ''c'']" ?s pancakes]
  have sel: "selectedRecipe ?s = Some pancakes" by (simp add: selectRecipe_def)
  have len: "length (instructions pancakes) = 4" by (simp add: pancakes_def exampleRecipe_def)
  have ids: "rec_id garlicBread \<noteq> rec_id pancakes"
    by (simp add: pancakes_def garlicBread_def exampleRecipe_def)
  have rs: "recipes ?s = [garlicBread, pancakes]" by (simp add: selectRecipe_def initialState_def)
  note t1 = t [THEN conjunct1]
  note t2 = t [THEN conjunct2, THEN conjunct1, rule_format]
  note t3 = t [THEN conjunct2, THEN conjunct2, THEN conjunct1, rule_format]
  note t4 = t [THEN conjunct2, THEN conjunct2, THEN conjunct2, rule_format, OF sel]
  have fails: "secondFails 1 ([''a'', ''b'', ''c''] ! 1) = RequestThrows" by simp
  have e0: "generateInstructionThumbnails secondFails [''a'', ''b'', ''c''] ! 0 = ''data:image/png;base64,a''"
    using t2 [of 0] by (simp add: stepThumbnail_def)
  have e1: "generateInstructionThumbnails secondFails [''a'', ''b'', ''c''] ! 1 = []"
    using t3 [of 1] fails by simp
  have e2: "generateInstructionThumbnails secondFails [''a'', ''b'', ''c''] ! 2 = ''data:image/png;base64,c''"
    using t2 [of 2] by (simp add: stepThumbnail_def)
  have l3: "length (generateInstructionThumbnails secondFails [''a'', ''b'', ''c'']) = 3"
    using t1 by simp
  have r0: "generateInstructionThumbnails secondFails [''a'', ''b'', ''c'']
     = [''data:image/png;base64,a'', [], ''data:image/png;base64,c'']"
    using list_of_three [OF l3] e0 e1 e2 by simp
  from t4 [THEN conjunct1] obtain th where
    th: "selectedRecipe ?s' = Some (pancakes\<lparr>instructionThumbnails := Some th\<rparr>)"
        "length th = length (instructions pancakes)"
    by blast
  have r2: "map_option (map_option length \<circ> instructionThumbnails) (selectedRecipe ?s') = Some (Some 4)"
    by (simp add: th len)
  have rs': "recipes ?s' = [garlicBread, pancakes\<lparr>instructionThumbnails := Some (generateInstructionThumbnails secondFails (instructions pancakes))\<rparr>]"
    using ids
    by (simp add: handleVisualizeSteps_def handleVisualizeSteps_call_def sel
          handleVisualizeSteps_resume_def writeThrough_def rs)
  have nothumb: "instructionThumbnails garlicBread = None"
    by (simp add: garlicBread_def exampleRecipe_def)
  have r1: "map (map_option length \<circ> instructionThumbnails) (recipes ?s') = [None, Some 4]"
    by (simp add: rs' nothumb length_thumbnails len)
  show ?thesis using r0 fails sel r1 r2 len by simp
qed

subsection \<open>The video reference is written through\<close>

text \<open>
  What the resumed handler writes, for any state and any captured recipe \<open>r\<close>: the
  displayed recipe becomes \<open>r\<close> with the video reference, every entry of the collection
  with the id of \<open>r\<close> becomes that same value, and every other entry and the rest of
  the state stay as they were. When the displayed recipe and the stored entry still are
  the captured recipe, both change in the video reference only.
\<close>

lemma video_written_through:
  "selectedRecipe (handleGenerateVideoForActiveRecipe_resume r (Inr url) s)
     = Some (r\<lparr>videoUrl := Some url\<rparr>)
   \<and> length (recipes (handleGenerateVideoForActiveRecipe_resume r (Inr url) s)) = length (recipes s)
   \<and> (\<forall>k < length (recipes s).
         rec_id (recipes s ! k) = rec_id r \<longrightarrow>
         Some (recipes (handleGenerateVideoForActiveRecipe_resume r (Inr url) s) ! k)
           = selectedRecipe (handleGenerateVideoForActiveRecipe_resume r (Inr url) s))
   \<and> (\<forall>k < length (recipes s).
         rec_id (recipes s ! k) \<noteq> rec_id r \<longrightarrow>
         recipes (handleGenerateVideoForActiveRecipe_resume r (Inr url) s) ! k = recipes s ! k)
   \<and> videoUrl (r\<lparr>videoUrl := Some url\<rparr>) = Some url
   \<and> (r\<lparr>videoUrl := Some url\<rparr>)\<lparr>videoUrl := videoUrl r\<rparr> = r
   \<and> (handleGenerateVideoForActiveRecipe_resume r (Inr url) s)
        \<lparr>selectedRecipe := selectedRecipe s, recipes := recipes s, isGenerating := isGenerating s\<rparr> = s
   \<and> (selectedRecipe s = Some r \<longrightarrow>
        handleGenerateVideoForActiveRecipe True (Inr url) s
          = handleGenerateVideoForActiveRecipe_resume r (Inr url) (s\<lparr>isGenerating := True\<rparr>))"
  by (simp add: handleGenerateVideoForActiveRecipe_resume_def writeThrough_def
        handleGenerateVideoForActiveRecipe_def handleGenerateVideoForActiveRecipe_call_def)

text \<open>
  With the pancakes displayed and two recipes stored, the video goes to the pancakes in
  both places and the garlic bread is untouched.
\<close>

lemma video_written_through_example:
  "selectedRecipe (selectRecipe pancakes (initialState [garlicBread, pancakes])) = Some pancakes
   \<and> rec_id ([garlicBread, pancakes] ! 0) \<noteq> rec_id pancakes
   \<and> rec_id ([garlicBread, pancakes] ! 1) = rec_id pancakes
   \<and> recipes (handleGenerateVideoForActiveRecipe True (Inr ''blob:video-1'')
         (selectRecipe pancakes (initialState [garlicBread, pancakes])))
       = [garlicBread, pancakes\<lparr>videoUrl := Some ''blob:video-1''\<rparr>]
   \<and> selectedRecipe (handleGenerateVideoForActiveRecipe True (Inr ''blob:video-1'')
         (selectRecipe pancakes (initialState [garlicBread, pancakes])))
       = Some (pancakes\<lparr>videoUrl := Some ''blob:video-1''\<rparr>)"
proof -
  let ?s = "selectRecipe pancakes (initialState [garlicBread, pancakes])"
  let ?t = "?s\<lparr>isGenerating := True\<rparr>"
  let ?s' = "handleGenerateVideoForActiveRecipe_resume pancakes (Inr ''blob:video-1'') ?t"
  note t = video_written_through [of pancakes "''blob:video-1''" ?t]
  have sel: "selectedRecipe ?s = Some pancakes" by (simp add: selectRecipe_def)
  have rs: "recipes ?t = [garlicBread, pancakes]" by (simp add: selectRecipe_def initialState_def)
  have ids: "rec_id garlicBread \<noteq> rec_id pancakes"
    by (simp add: pancakes_def garlicBread_def exampleRecipe_def)
  have run: "handleGenerateVideoForActiveRecipe True (Inr ''blob:video-1'') ?s = ?s'"
    using video_written_through [of pancakes "''blob:video-1''" ?s] sel by blast
  from t have s1: "selectedRecipe ?s' = Some (pancakes\<lparr>videoUrl := Some ''blob:video-1''\<rparr>)"
    by blast
  from t rs have len: "length (recipes ?s') = 2" by simp
  from t have fr: "\<forall>k < length (recipes ?t). rec_id (recipes ?t ! k) \<noteq> rec_id pancakes \<longrightarrow>
         recipes ?s' ! k = recipes ?t ! k"
    by blast
  have e0: "recipes ?s' ! 0 = garlicBread"
    using fr [rule_format, of 0] ids by (simp add: rs)
  from t have sm: "\<forall>k < length (recipes ?t). rec_id (recipes ?t ! k) = rec_id pancakes \<longrightarrow>
         Some (recipes ?s' ! k) = selectedRecipe ?s'"
    by blast
  have "Some (recipes ?s' ! 1) = selectedRecipe ?s'"
    using sm [rule_format, of 1] by (simp add: rs)
  with s1 have e1: "recipes ?s' ! 1 = pancakes\<lparr>videoUrl := Some ''blob:video-1''\<rparr>" by simp
  have "recipes ?s' = [garlicBread, pancakes\<lparr>videoUrl := Some ''blob:video-1''\<rparr>]"
    using len e0 e1 by (intro nth_equalityI) (auto simp: less_Suc_eq numeral_2_eq_2)
  then show ?thesis using sel ids s1 run by simp
qed

lemma video_write_in_sync:
  "k < length (recipes s) \<Longrightarrow> recipes s ! k = r \<Longrightarrow> selectedRecipe s = Some r \<Longrightarrow>
   recipes (handleGenerateVideoForActiveRecipe_resume r (Inr url) s) ! k
     = (recipes s ! k)\<lparr>videoUrl := Some url\<rparr>
   \<and> selectedRecipe (handleGenerateVideoForActiveRecipe_resume r (Inr url) s)
     = map_option (\<lambda>d. d\<lparr>videoUrl := Some url\<rparr>) (selectedRecipe s)"
  by (simp add: handleGenerateVideoForActiveRecipe_resume_def writeThrough_def)



section \<open>Properties of draft orchestration\<close>

lemma generateRecipeFromMedia_fails:
  "(\<exists>e. generateRecipeFromMedia json_parse reply = Inl e) =
     (reply = ApiThrows \<or> reply = ApiResponse None \<or> reply = ApiResponse (Some [])
      \<or> (\<exists>txt. reply = ApiResponse (Some txt) \<and> json_parse txt = None))"
  by (cases "(json_parse, reply)" rule: generateRecipeFromMedia.cases)
     (auto split: option.splits)

subsection \<open>A failed transcription leaves the orchestrator where it was\<close>

text \<open>
  Claim C7. When the gateway call throws, returns no text, or returns a text that
  \<^verbatim>\<open>JSON.parse\<close> rejects, \<^verbatim>\<open>generateRecipeFromMedia\<close> fails, and the handler
  resumes into its \<^verbatim>\<open>catch\<close>: the creation step, the draft, the recipe collection and
  the requests in flight are what they were, the user gets the notice, and nothing but
  the notices and the busy flag differs from the state before. Run without
  interruption, the handler changes the state by the notice and the cleared busy flag only.
\<close>

theorem failed_generation_stays_capturing:
  "(reply = ApiThrows \<or> reply = ApiResponse None \<or> reply = ApiResponse (Some [])
      \<or> (\<exists>txt. reply = ApiResponse (Some txt) \<and> json_parse txt = None))
   \<longrightarrow>
   (\<exists>e. generateRecipeFromMedia json_parse reply = Inl e)
   \<and> creationStep (handleGenerateRecipe_resume user captured now
                      (generateRecipeFromMedia json_parse reply) s) = creationStep s
   \<and> draftRecipe (handleGenerateRecipe_resume user captured now
                      (generateRecipeFromMedia json_parse reply) s) = draftRecipe s
   \<and> recipes (handleGenerateRecipe_resume user captured now
                      (generateRecipeFromMedia json_parse reply) s) = recipes s
   \<and> pendingImages (handleGenerateRecipe_resume user captured now
                      (generateRecipeFromMedia json_parse reply) s) = pendingImages s
   \<and> alerts (handleGenerateRecipe_resume user captured now
                      (generateRecipeFromMedia json_parse reply) s) = alerts s @ [RecipeNotUnderstood]
   \<and> (handleGenerateRecipe_resume user captured now (generateRecipeFromMedia json_parse reply) s)
        \<lparr>alerts := alerts s, isGenerating := isGenerating s\<rparr> = s
   \<and> recordAndGenerate now (generateRecipeFromMedia json_parse reply) s
       = s\<lparr>alerts := alerts s @ [RecipeNotUnderstood], isGenerating := False\<rparr>
   \<and> handleGenerateRecipe user captured now (generateRecipeFromMedia json_parse reply) s
       = s\<lparr>alerts := alerts s @ [RecipeNotUnderstood], isGenerating := False\<rparr>"
proof
  assume "reply = ApiThrows \<or> reply = ApiResponse None \<or> reply = ApiResponse (Some [])
      \<or> (\<exists>txt. reply = ApiResponse (Some txt) \<and> json_parse txt = None)"
  then obtain e where e: "generateRecipeFromMedia json_parse reply = Inl e"
    using generateRecipeFromMedia_fails [of json_parse reply] by blast
  show "(\<exists>e. generateRecipeFromMedia json_parse reply = Inl e)
   \<and> creationStep (handleGenerateRecipe_resume user captured now
                      (generateRecipeFromMedia json_parse reply) s) = creationStep s
   \<and> draftRecipe (handleGenerateRecipe_resume user captured now
                      (generateRecipeFromMedia json_parse reply) s) = draftRecipe s
   \<and> recipes (handleGenerateRecipe_resume user captured now
                      (generateRecipeFromMedia json_parse reply) s) = recipes s
   \<and> pendingImages (handleGenerateRecipe_resume user captured now
                      (generateRecipeFromMedia json_parse reply) s) = pendingImages s
   \<and> alerts (handleGenerateRecipe_resume user captured now
                      (generateRecipeFromMedia json_parse reply) s) = alerts s @ [RecipeNotUnderstood]
   \<and> (handleGenerateRecipe_resume user captured now (generateRecipeFromMedia json_parse reply) s)
        \<lparr>alerts := alerts s, isGenerating := isGenerating s\<rparr> = s
   \<and> recordAndGenerate now (generateRecipeFromMedia json_parse reply) s
       = s\<lparr>alerts := alerts s @ [RecipeNotUnderstood], isGenerating := False\<rparr>
   \<and> handleGenerateRecipe user captured now (generateRecipeFromMedia json_parse reply) s
       = s\<lparr>alerts := alerts s @ [RecipeNotUnderstood], isGenerating := False\<rparr>"
    unfolding e
    by (simp add: handleGenerateRecipe_resume_def handleGenerateRecipe_def
          handleGenerateRecipe_call_def recordAndGenerate_def)
qed

text \<open>
  An unparsable reply in the media step of the create view: the step is still the
  media step, there is no draft, the collection is as before, and one notice was shown.
\<close>

theorem failed_generation_stays_capturing_witness:
  "rejectAll ''(inaudible)'' = None
   \<and> generateRecipeFromMedia rejectAll (ApiResponse (Some ''(inaudible)'')) = Inl JsonSyntaxError
   \<and> creationStep (recordAndGenerate (steadyClock 1000)
         (generateRecipeFromMedia rejectAll (ApiResponse (Some ''(inaudible)'')))
         (openCreate (initialState [pancakes]))) = MEDIA
   \<and> draftRecipe (recordAndGenerate (steadyClock 1000)
         (generateRecipeFromMedia rejectAll (ApiResponse (Some ''(inaudible)'')))
         (openCreate (initialState [pancakes]))) = None
   \<and> recipes (recordAndGenerate (steadyClock 1000)
         (generateRecipeFromMedia rejectAll (ApiResponse (Some ''(inaudible)'')))
         (openCreate (initialState [pancakes]))) = [pancakes]
   \<and> alerts (recordAndGenerate (steadyClock 1000)
         (generateRecipeFromMedia rejectAll (ApiResponse (Some ''(inaudible)'')))
         (openCreate (initialState [pancakes]))) = [RecipeNotUnderstood]"
proof -
  have unparsable: "rejectAll ''(inaudible)'' = None" by (simp add: rejectAll_def)
  then have pre: "ApiResponse (Some ''(inaudible)'') = ApiThrows
      \<or> ApiResponse (Some ''(inaudible)'') = ApiResponse None
      \<or> ApiResponse (Some ''(inaudible)'') = ApiResponse (Some [])
      \<or> (\<exists>txt. ApiResponse (Some ''(inaudible)'') = ApiResponse (Some txt) \<and> rejectAll txt = None)"
    by blast
  note t = failed_generation_stays_capturing
      [where reply = "ApiResponse (Some ''(inaudible)'')" and json_parse = rejectAll
         and now = "steadyClock 1000" and s = "openCreate (initialState [pancakes])"
         and user = "hd DEFAULT_USERS" and captured = None, rule_format, OF pre]
  have err: "generateRecipeFromMedia rejectAll (ApiResponse (Some ''(inaudible)'')) = Inl JsonSyntaxError"
    by (simp add: rejectAll_def)
  from t have run: "recordAndGenerate (steadyClock 1000)
         (generateRecipeFromMedia rejectAll (ApiResponse (Some ''(inaudible)'')))
         (openCreate (initialState [pancakes]))
       = (openCreate (initialState [pancakes]))
           \<lparr>alerts := alerts (openCreate (initialState [pancakes])) @ [RecipeNotUnderstood],
            isGenerating := False\<rparr>"
    by blast
  show ?thesis
    unfolding run using unparsable err by (simp add: openCreate_def initialState_def)
qed

section \<open>Properties of the runtime values\<close>

lemma show_nat_small: "n < 10 \<Longrightarrow> show_nat n = [''0123456789'' ! n]"
  by (simp add: show_nat.simps)

lemma show_nat_large:
  "\<not> n < 10 \<Longrightarrow> show_nat n = show_nat (n div 10) @ [''0123456789'' ! (n mod 10)]"
  by (subst show_nat.simps) simp

lemma show_nat_nonempty: "show_nat n \<noteq> []"
  by (cases "n < 10") (simp_all add: show_nat_small show_nat_large)

lemma digit_inj:
  assumes "a < 10" "b < 10" "''0123456789'' ! a = ''0123456789'' ! b"
  shows "a = b"
proof -
  have d: "distinct ''0123456789''" by simp
  have "a < length ''0123456789''" "b < length ''0123456789''" using assms by simp_all
  with d assms(3) show ?thesis by (simp add: nth_eq_iff_index_eq)
qed

lemma show_nat_inj: "show_nat m = show_nat n \<Longrightarrow> m = n"
proof (induction m arbitrary: n rule: show_nat.induct)
  case (1 m)
  show ?case
  proof (cases "m < 10")
    case True
    then have "length (show_nat m) = 1" by (simp add: show_nat_small)
    then have one: "length (show_nat n) = 1" using "1.prems" by simp
    have "n < 10"
    proof (rule ccontr)
      assume "\<not> n < 10"
      then have "length (show_nat n) = Suc (length (show_nat (n div 10)))"
        by (simp add: show_nat_large)
      with one show False using show_nat_nonempty [of "n div 10"] by simp
    qed
    with True "1.prems" show ?thesis
      by (auto simp: show_nat_small intro: digit_inj)
  next
    case False
    have "\<not> n < 10"
    proof
      assume "n < 10"
      then have "length (show_nat m) = 1" using "1.prems" by (simp add: show_nat_small)
      moreover have "length (show_nat m) = Suc (length (show_nat (m div 10)))"
        using False by (simp add: show_nat_large)
      ultimately show False using show_nat_nonempty [of "m div 10"] by simp
    qed
    with False "1.prems" have
      "show_nat (m div 10) = show_nat (n div 10)"
      "''0123456789'' ! (m mod 10) = ''0123456789'' ! (n mod 10)"
      by (simp_all add: show_nat_large)
    then have "m div 10 = n div 10" "m mod 10 = n mod 10"
      using "1.IH" [OF False] by (auto intro: digit_inj)
    then show ?thesis by (metis div_mult_mod_eq)
  qed
qed

lemma show_nat_1000: "show_nat 1000 = ''1000''"
  by (simp add: show_nat.simps)

section \<open>Properties of commit\<close>

lemma editDraft_keeps_identity:
  "rec_id (editDraft e d) = rec_id d \<and> authorId (editDraft e d) = authorId d
   \<and> createdAt (editDraft e d) = createdAt d"
  by (cases e) simp_all

lemma run_edits_Nil: "run_edits [] s = s"
  by (simp add: run_edits_def)

lemma run_edits_Cons: "run_edits (e # es) s = run_edits es (editField e s)"
  by (simp add: run_edits_def)

lemma run_edits_draft:
  "draftRecipe s = Some d \<Longrightarrow>
   \<exists>d'. run_edits es s = s\<lparr>draftRecipe := Some d'\<rparr>
        \<and> rec_id d' = rec_id d \<and> authorId d' = authorId d \<and> createdAt d' = createdAt d"
proof (induction es arbitrary: s d)
  case Nil
  then show ?case by (auto simp: run_edits_Nil intro!: exI [of _ d])
next
  case (Cons e es)
  let ?s = "editField e s"
  have s: "?s = s\<lparr>draftRecipe := Some (editDraft e d)\<rparr>"
    using Cons.prems by (simp add: editField_def)
  then have "draftRecipe ?s = Some (editDraft e d)" by simp
  from Cons.IH [OF this] obtain d' where
    d': "run_edits es ?s = ?s\<lparr>draftRecipe := Some d'\<rparr>"
        "rec_id d' = rec_id (editDraft e d)" "authorId d' = authorId (editDraft e d)"
        "createdAt d' = createdAt (editDraft e d)"
    by blast
  then show ?case
    using editDraft_keeps_identity [of e d] s
    by (intro exI [of _ d']) (simp add: run_edits_Cons)
qed

lemma handleSaveRecipe_cases:
  "(draftRecipe s = None \<longrightarrow> handleSaveRecipe s = s)
   \<and> (\<forall>d. draftRecipe s = Some d \<longrightarrow>
         (title d = [] \<longrightarrow> handleSaveRecipe s = s)
         \<and> (title d \<noteq> [] \<longrightarrow>
              handleSaveRecipe s =
                s\<lparr>recipes := d # recipes s, draftRecipe := None, capturedImage := None,
                  creationStep := MEDIA, view := HOME\<rparr>))"
  by (simp add: handleSaveRecipe_def)

lemma generated_draft:
  "draftRecipe (handleGenerateRecipe_resume user captured now (Inr genData) s)
     = Some (newRecipe user captured now genData)
   \<and> recipes (handleGenerateRecipe_resume user captured now (Inr genData) s) = recipes s
   \<and> creationStep (handleGenerateRecipe_resume user captured now (Inr genData) s) = REVIEW"
  by (simp add: handleGenerateRecipe_resume_def Let_def)

lemma newRecipe_identity:
  "rec_id (newRecipe user captured now genData) = ''rec-'' @ show_nat (now 0)
   \<and> authorId (newRecipe user captured now genData) = user_id user
   \<and> createdAt (newRecipe user captured now genData) = now 1"
  by (simp add: newRecipe_def)

subsection \<open>Commit promotes the draft as it was generated\<close>

text \<open>
  Claim C1 says that commit assigns the id, the author and the creation time. The handler
  assigns nothing: \<^verbatim>\<open>handleGenerateRecipe\<close> has put all three into the draft, and the
  review step lies between generation and commit. A draft generated at clock reading
  1000 and saved at 2000 is stored with \<^verbatim>\<open>createdAt\<close> 1000.
\<close>

theorem commit_createdAt_counterexample:
  "map title (recipes (commit 2000
      (recordAndGenerate (steadyClock 1000) (Inr (exampleGenData ''Garlic Toast''))
         (openCreate (initialState [pancakes])))))
     = [''Garlic Toast'', ''Lemon Ricotta Pancakes'']
   \<and> createdAt (hd (recipes (commit 2000
      (recordAndGenerate (steadyClock 1000) (Inr (exampleGenData ''Garlic Toast''))
         (openCreate (initialState [pancakes])))))) = 1000
   \<and> createdAt (hd (recipes (commit 2000
      (recordAndGenerate (steadyClock 1000) (Inr (exampleGenData ''Garlic Toast''))
         (openCreate (initialState [pancakes])))))) \<noteq> 2000"
  by (simp add: commit_def handleSaveRecipe_def handleGenerateRecipe_def recordAndGenerate_def
        startRecording_def handleGenerateRecipe_call_def handleGenerateRecipe_resume_def Let_def newRecipe_def
        exampleGenData_def steadyClock_def openCreate_def initialState_def pancakes_def
        exampleRecipe_def)

subsection \<open>Invariants of the runs of the component\<close>

lemma set_without: "set (without k xs) \<subseteq> set xs"
  unfolding without_def using set_take_subset [of k xs] set_drop_subset [of "Suc k" xs] by auto

lemma editDraft_authorId: "authorId (editDraft e d) = authorId d"
  by (cases e) simp_all

lemma author_ok_profile:
  assumes "author_ok ss" "profile_enabled a (app ss)"
  shows "author_ok (unmountRecorder (ss\<lparr>app := profile_step a (app ss)\<rparr>))"
proof (cases a)
  case (SwitchUser userId)
  show ?thesis
  proof (cases "find (\<lambda>u. user_id u = userId) (users (app ss))")
    case None
    with assms SwitchUser show ?thesis
      by (simp add: author_ok_def unmountRecorder_def mediaStep_def profile_step_def handleSwitchUser_def)
  next
    case (Some user)
    then have "user \<in> set (users (app ss))" by (auto simp: find_Some_iff)
    with assms SwitchUser Some show ?thesis
      by (auto simp add: author_ok_def unmountRecorder_def mediaStep_def profile_step_def
          handleSwitchUser_def mirror_effect_def)
  qed
next
  case (WhoIsCooking k)
  with assms have "users (app ss) ! k \<in> set (users (app ss))" by simp
  with assms WhoIsCooking show ?thesis
    by (auto simp add: author_ok_def unmountRecorder_def mediaStep_def profile_step_def
        whoIsCooking_def mirror_effect_def)
next
  case (UpdateAvatar img)
  with assms show ?thesis
    by (auto simp add: author_ok_def unmountRecorder_def mediaStep_def profile_step_def
        handleUpdateAvatar_def mirror_effect_def Let_def)
next
  case (FavoriteClick recipeId)
  with assms show ?thesis
    by (auto simp add: author_ok_def unmountRecorder_def mediaStep_def profile_step_def
        favoriteClick_def toggleFavorite_def mirror_effect_def)
next
  case (AddAll now rnd ings)
  with assms show ?thesis
    by (auto simp add: author_ok_def unmountRecorder_def mediaStep_def profile_step_def
        addToShoppingList_def mirror_effect_def Let_def)
next
  case (ToggleChecked itemId)
  with assms show ?thesis
    by (auto simp add: author_ok_def unmountRecorder_def mediaStep_def profile_step_def
        toggleChecked_def mirror_effect_def)
next
  case (RemoveItem itemId)
  with assms show ?thesis
    by (auto simp add: author_ok_def unmountRecorder_def mediaStep_def profile_step_def
        removeItem_def mirror_effect_def)
next
  case ClearAll
  with assms show ?thesis
    by (auto simp add: author_ok_def unmountRecorder_def mediaStep_def profile_step_def
        clearAll_def mirror_effect_def)
qed


lemmas author_simps =
  author_ok_def unmountRecorder_def mediaStep_def reviewStep_def detailShown_def

lemma author_ok_step:
  assumes "author_ok ss" "enabled e ss"
  shows "author_ok (unmountRecorder (fire e ss))"
proof (cases e)
  case (Profile a)
  with assms show ?thesis using author_ok_profile [of ss a] by simp
next
  case ClickLogo
  with assms show ?thesis by (simp add: author_simps goHome_def)
next
  case ClickShoppingBag
  with assms show ?thesis by (simp add: author_simps openShoppingList_def)
next
  case ToggleUserMenu
  with assms show ?thesis by (simp add: author_simps toggleUserMenu_def)
next
  case EditMyAvatar
  with assms show ?thesis by (simp add: author_simps editMyAvatar_def)
next
  case CloseProfileEditor
  with assms show ?thesis by (simp add: author_simps closeProfileEditor_def)
next
  case ClickCreate
  with assms show ?thesis by (simp add: author_simps openCreate_def)
next
  case ClickCancel
  with assms show ?thesis by (simp add: author_simps cancelCreate_def)
next
  case (CapturePhoto img)
  with assms show ?thesis by (simp add: author_simps capturePhoto_def)
next
  case RetakePhoto
  with assms show ?thesis by (simp add: author_simps retakePhoto_def)
next
  case StartRecording
  with assms show ?thesis by (simp add: author_simps startRecording_def)
next
  case StopRecording
  with assms show ?thesis
    by (auto simp add: author_simps handleGenerateRecipe_call_def split: option.splits)
next
  case (GenerationSettles k outcome now)
  with assms have k: "k < length (generations ss)" by simp
  then have "generations ss ! k \<in> set (generations ss)" by simp
  with assms have u: "user_id (fst (generations ss ! k)) = adminId" by (simp add: author_ok_def)
  have g: "\<forall>c \<in> set (without k (generations ss)). user_id (fst c) = adminId"
    using assms(1) set_without [of k "generations ss"] by (auto simp: author_ok_def)
  show ?thesis
  proof (cases outcome)
    case (Inl err)
    with assms GenerationSettles g show ?thesis
      by (simp add: author_simps handleGenerateRecipe_resume_def)
  next
    case (Inr genData)
    with assms GenerationSettles g u show ?thesis
      by (simp add: author_simps handleGenerateRecipe_resume_def Let_def newRecipe_def)
  qed
next
  case (ImageSettles k result)
  with assms show ?thesis
    by (auto simp add: author_simps imageSettled_def Let_def split: option.splits)
next
  case (EditDraftField ed)
  with assms show ?thesis
    by (auto simp add: author_simps editField_def editDraft_authorId split: option.splits)
next
  case (ClickDraftVideo key_ok)
  with assms show ?thesis
    by (auto simp add: author_simps handleGenerateVideo_call_def split: option.splits)
next
  case (DraftVideoSettles outcome)
  with assms show ?thesis
    by (auto simp add: author_simps handleGenerateVideo_resume_def split: option.splits sum.splits)
next
  case ClickDiscard
  with assms show ?thesis by (simp add: author_simps discard_def)
next
  case (ClickSave clock)
  with assms show ?thesis
    by (auto simp add: author_simps commit_def handleSaveRecipe_def split: option.splits)
next
  case (ClickRecipe k)
  with assms show ?thesis by (simp add: author_simps selectRecipe_def)
next
  case ClickBack
  with assms show ?thesis by (simp add: author_simps goHome_def)
next
  case (ClickServings c)
  with assms show ?thesis
    by (cases c) (simp_all add: author_simps fewerServings_def moreServings_def)
next
  case ClickVisualize
  with assms show ?thesis
    by (auto simp add: author_simps handleVisualizeSteps_call_def split: option.splits)
next
  case (VisualsSettle k ai)
  with assms show ?thesis
    by (simp add: author_simps handleVisualizeSteps_resume_def writeThrough_def)
next
  case (ClickVideo key_ok)
  with assms show ?thesis
    by (auto simp add: author_simps handleGenerateVideoForActiveRecipe_call_def split: option.splits)
next
  case (VideoSettles k outcome)
  with assms show ?thesis
    by (auto simp add: author_simps handleGenerateVideoForActiveRecipe_resume_def writeThrough_def
        split: sum.splits)
next
  case (Cook a)
  with assms show ?thesis
    by (cases a) (auto simp add: author_simps split: option.splits)
next
  case ClickBrowse
  with assms show ?thesis by (simp add: author_simps goHome_def)
qed


lemma app_unmountRecorder: "app (unmountRecorder ss) = app ss"
  by (simp add: unmountRecorder_def)

lemma editDraft_identity:
  "rec_id (editDraft e d) = rec_id d \<and> createdAt (editDraft e d) = createdAt d"
  by (cases e) simp_all

lemma writeThrough_ids: "map rec_id (recipes (writeThrough u s)) = map rec_id (recipes s)"
  by (simp add: writeThrough_def)

lemma kept_same: "recipes s' = recipes s \<Longrightarrow> draftRecipe s' = draftRecipe s \<Longrightarrow> kept s s'"
  by (cases "draftRecipe s") (simp_all add: kept_def)

lemma kept_profile: "kept s (profile_step a s)"
  by (rule kept_same)
     (cases a; simp add: profile_step_def mirror_effect_def handleSwitchUser_def whoIsCooking_def
        handleUpdateAvatar_def favoriteClick_def addToShoppingList_def toggleChecked_def
        removeItem_def clearAll_def Let_def split: option.splits)+

lemma fire_footprint:
  assumes "enabled e ss"
  shows "kept (app ss) (app (fire e ss))
       \<or> (\<exists>k genData now. e = GenerationSettles k (Inr genData) now
             \<and> recipes (app (fire e ss)) = recipes (app ss)
             \<and> draftRecipe (app (fire e ss)) =
                 Some (newRecipe (fst (generations ss ! k)) (snd (generations ss ! k)) now genData))
       \<or> (\<exists>clock d. e = ClickSave clock \<and> draftRecipe (app ss) = Some d
             \<and> recipes (app (fire e ss)) = d # recipes (app ss)
             \<and> draftRecipe (app (fire e ss)) = None)"
proof (cases e)
  case (Profile a)
  then show ?thesis using kept_profile [of "app ss" a] by simp
next
  case (GenerationSettles k outcome now)
  then show ?thesis
    by (cases outcome) (simp_all add: handleGenerateRecipe_resume_def Let_def kept_same)
next
  case (ClickSave clock)
  with assms obtain d where d: "draftRecipe (app ss) = Some d" by (auto simp: reviewStep_def)
  show ?thesis
  proof (cases "title d = []")
    case True
    with d ClickSave show ?thesis by (simp add: commit_def handleSaveRecipe_def kept_same)
  next
    case False
    with d ClickSave show ?thesis by (simp add: commit_def handleSaveRecipe_def)
  qed
next
  case (ImageSettles k result)
  then show ?thesis
    by (cases "draftRecipe (app ss)"; cases result)
       (simp_all add: imageSettled_def Let_def kept_def)
next
  case (EditDraftField ed)
  then show ?thesis
    by (cases "draftRecipe (app ss)") (simp_all add: editField_def kept_def editDraft_identity)
next
  case (DraftVideoSettles outcome)
  then show ?thesis
    by (cases "draftRecipe (app ss)"; cases outcome)
       (simp_all add: handleGenerateVideo_resume_def kept_def)
next
  case (VisualsSettle k ai)
  then show ?thesis
    by (cases "draftRecipe (app ss)")
       (simp_all add: handleVisualizeSteps_resume_def kept_def writeThrough_def)
next
  case (VideoSettles k outcome)
  then show ?thesis
    by (cases "draftRecipe (app ss)"; cases outcome)
       (simp_all add: handleGenerateVideoForActiveRecipe_resume_def kept_def writeThrough_def)
next
  case ClickLogo
  then show ?thesis by (simp add: kept_same goHome_def)
next
  case ClickShoppingBag
  then show ?thesis by (simp add: kept_same openShoppingList_def)
next
  case ToggleUserMenu
  then show ?thesis by (simp add: kept_same toggleUserMenu_def)
next
  case EditMyAvatar
  then show ?thesis by (simp add: kept_same editMyAvatar_def)
next
  case CloseProfileEditor
  then show ?thesis by (simp add: kept_same closeProfileEditor_def)
next
  case ClickCreate
  then show ?thesis by (simp add: kept_same openCreate_def)
next
  case ClickCancel
  then show ?thesis by (simp add: kept_def cancelCreate_def)
next
  case (CapturePhoto img)
  then show ?thesis by (simp add: kept_same capturePhoto_def)
next
  case RetakePhoto
  then show ?thesis by (simp add: kept_same retakePhoto_def)
next
  case StartRecording
  then show ?thesis by (simp add: kept_same)
next
  case StopRecording
  then show ?thesis
    by (cases "recorder ss") (simp_all add: kept_same handleGenerateRecipe_call_def)
next
  case (ClickDraftVideo key_ok)
  then show ?thesis
    by (cases "draftRecipe (app ss)") (simp_all add: kept_same handleGenerateVideo_call_def)
next
  case ClickDiscard
  then show ?thesis by (simp add: kept_def discard_def)
next
  case (ClickRecipe k)
  then show ?thesis by (simp add: kept_same selectRecipe_def)
next
  case ClickBack
  then show ?thesis by (simp add: kept_same goHome_def)
next
  case (ClickServings c)
  then show ?thesis by (cases c) (simp_all add: kept_same fewerServings_def moreServings_def)
next
  case ClickVisualize
  then show ?thesis
    by (cases "selectedRecipe (app ss)") (simp_all add: kept_same handleVisualizeSteps_call_def)
next
  case (ClickVideo key_ok)
  then show ?thesis
    by (cases "selectedRecipe (app ss)")
       (simp_all add: kept_same handleGenerateVideoForActiveRecipe_call_def)
next
  case (Cook a)
  then show ?thesis
    by (cases a; cases "selectedRecipe (app ss)") (simp_all add: kept_same)
next
  case ClickBrowse
  then show ?thesis by (simp add: kept_same goHome_def)
qed


lemma run_ui_Nil: "run_ui [] ss = Some ss"
  by (simp add: run_ui_def)

lemma run_ui_snoc:
  "run_ui (es @ [e]) ss = (case run_ui es ss of None \<Rightarrow> None | Some x \<Rightarrow> ui_step e x)"
  by (simp add: run_ui_def)

lemma generated_append: "generated (es @ es') = generated es @ generated es'"
  by (induction es rule: generated.induct) simp_all

lemma stamps_append: "stamps (es @ es') = stamps es @ stamps es'"
  by (simp add: stamps_def generated_append)

lemma rec_id_inj: "''rec-'' @ show_nat t = ''rec-'' @ show_nat t' \<Longrightarrow> t = t'"
  using show_nat_inj by simp

lemma provenance_step:
  assumes "provenance es ss" "enabled e ss"
  shows "provenance (es @ [e]) (unmountRecorder (fire e ss))"
proof -
  let ?s = "app ss" and ?s' = "app (fire e ss)"
  have sub: "set (generated es) \<subseteq> set (generated (es @ [e]))" by (simp add: generated_append)
  from fire_footprint [OF assms(2)] consider
    (kept) "kept ?s ?s'"
  | (gen) k genData now where "e = GenerationSettles k (Inr genData) now"
      "draftRecipe ?s' = Some (newRecipe (fst (generations ss ! k)) (snd (generations ss ! k)) now genData)"
  | (save) "draftRecipe ?s' = None"
    by (elim disjE exE conjE) auto
  then show ?thesis
  proof cases
    case kept
    show ?thesis unfolding provenance_def app_unmountRecorder
    proof (intro allI impI)
      fix d' assume d': "draftRecipe ?s' = Some d'"
      with kept obtain d where d: "draftRecipe ?s = Some d" "rec_id d' = rec_id d" "createdAt d' = createdAt d"
        by (auto simp: kept_def)
      with assms(1) obtain now where "now \<in> set (generated es)"
        "rec_id d = ''rec-'' @ show_nat (now 0)" "createdAt d = now 1"
        by (auto simp: provenance_def)
      with d sub show "\<exists>now \<in> set (generated (es @ [e])).
           rec_id d' = ''rec-'' @ show_nat (now 0) \<and> createdAt d' = now 1"
        by auto
    qed
  next
    case gen
    have "now \<in> set (generated (es @ [e]))" by (simp add: generated_append gen(1))
    with gen(2) show ?thesis
      unfolding provenance_def app_unmountRecorder by (auto simp: newRecipe_def)
  next
    case save
    then show ?thesis by (simp add: provenance_def app_unmountRecorder)
  qed
qed

lemma fresh_step:
  assumes f: "fresh t0 es ss" and p: "provenance es ss" and en: "enabled e ss"
    and later: "\<forall>x \<in> set (t0 # stamps es). \<forall>y \<in> set (stamps [e]). x < y"
  shows "fresh t0 (es @ [e]) (unmountRecorder (fire e ss))"
proof -
  let ?s = "app ss" and ?s' = "app (fire e ss)"
  have sub: "set (t0 # stamps es) \<subseteq> set (t0 # stamps (es @ [e]))" by (auto simp add: stamps_append)
  from f have f1: "\<And>r t. r \<in> set (recipes ?s) \<Longrightarrow> \<forall>x \<in> set (t0 # stamps es). x < t \<Longrightarrow>
          rec_id r \<noteq> ''rec-'' @ show_nat t"
    and f2: "\<And>d. draftRecipe ?s = Some d \<Longrightarrow> rec_id d \<notin> set (map rec_id (recipes ?s))"
    by (auto simp: fresh_def)
  from fire_footprint [OF en] consider
    (kept) "kept ?s ?s'"
  | (gen) k genData now where "e = GenerationSettles k (Inr genData) now"
      "recipes ?s' = recipes ?s"
      "draftRecipe ?s' = Some (newRecipe (fst (generations ss ! k)) (snd (generations ss ! k)) now genData)"
  | (save) clock d where "e = ClickSave clock" "draftRecipe ?s = Some d"
      "recipes ?s' = d # recipes ?s" "draftRecipe ?s' = None"
    by (elim disjE exE conjE) auto
  then show ?thesis
  proof cases
    case kept
    then have ids: "map rec_id (recipes ?s') = map rec_id (recipes ?s)" by (simp add: kept_def)
    then have ids': "rec_id ` set (recipes ?s') = rec_id ` set (recipes ?s)"
      by (metis set_map)
    show ?thesis unfolding fresh_def app_unmountRecorder
    proof (intro conjI ballI allI impI)
      fix r t assume r: "r \<in> set (recipes ?s')" and t: "\<forall>x \<in> set (t0 # stamps (es @ [e])). x < t"
      from r have "rec_id r \<in> rec_id ` set (recipes ?s')" by simp
      then have "rec_id r \<in> rec_id ` set (recipes ?s)" unfolding ids' .
      then obtain r0 where r0: "r0 \<in> set (recipes ?s)" "rec_id r0 = rec_id r" by auto
      from t sub have "\<forall>x \<in> set (t0 # stamps es). x < t" by blast
      from f1 [OF r0(1) this] r0(2) show "rec_id r \<noteq> ''rec-'' @ show_nat t" by simp
    next
      fix d' assume d': "draftRecipe ?s' = Some d'"
      with kept obtain d where d: "draftRecipe ?s = Some d" "rec_id d' = rec_id d"
        by (auto simp: kept_def)
      from f2 [OF d(1)] d(2) ids show "rec_id d' \<notin> set (map rec_id (recipes ?s'))" by simp
    qed
  next
    case gen
    have st: "stamps [e] = [now 0]" by (simp add: stamps_def gen(1))
    with later have new: "\<forall>x \<in> set (t0 # stamps es). x < now 0" by simp
    show ?thesis unfolding fresh_def app_unmountRecorder
    proof (intro conjI ballI allI impI)
      fix r t assume r: "r \<in> set (recipes ?s')" and t: "\<forall>x \<in> set (t0 # stamps (es @ [e])). x < t"
      from t sub have "\<forall>x \<in> set (t0 # stamps es). x < t" by blast
      with r gen(2) f1 show "rec_id r \<noteq> ''rec-'' @ show_nat t" by simp
    next
      fix d' assume d': "draftRecipe ?s' = Some d'"
      with gen(3) have id: "rec_id d' = ''rec-'' @ show_nat (now 0)" by (auto simp: newRecipe_def)
      have "\<forall>r \<in> set (recipes ?s). rec_id r \<noteq> ''rec-'' @ show_nat (now 0)"
        using f1 new by blast
      with id gen(2) show "rec_id d' \<notin> set (map rec_id (recipes ?s'))" by auto
    qed
  next
    case save
    from p save(2) obtain now where now: "now \<in> set (generated es)"
      "rec_id d = ''rec-'' @ show_nat (now 0)"
      by (auto simp: provenance_def)
    then have mem: "now 0 \<in> set (t0 # stamps es)" by (simp add: stamps_def)
    show ?thesis unfolding fresh_def app_unmountRecorder
    proof (intro conjI ballI allI impI)
      fix r t assume r: "r \<in> set (recipes ?s')" and t: "\<forall>x \<in> set (t0 # stamps (es @ [e])). x < t"
      from t sub have t': "\<forall>x \<in> set (t0 # stamps es). x < t" by blast
      show "rec_id r \<noteq> ''rec-'' @ show_nat t"
      proof (cases "r = d")
        case True
        from t' mem have "now 0 \<noteq> t" by auto
        with now(2) True show ?thesis using rec_id_inj [of "now 0" t] by auto
      next
        case False
        with r save(3) have "r \<in> set (recipes ?s)" by simp
        from f1 [OF this t'] show ?thesis .
      qed
    next
      fix d' assume "draftRecipe ?s' = Some d'"
      with save(4) show "rec_id d' \<notin> set (map rec_id (recipes ?s'))" by simp
    qed
  qed
qed

lemma startSession_author_ok: "author_ok (startSession rs)"
  by (simp add: author_ok_def startSession_def initialState_def DEFAULT_USERS_def adminId_def)

lemma reachable_author_provenance:
  "run_ui es (startSession rs) = Some ss \<Longrightarrow> author_ok ss \<and> provenance es ss"
proof (induction es arbitrary: ss rule: rev_induct)
  case Nil
  then have "ss = startSession rs" by (simp add: run_ui_Nil)
  then show ?case
    using startSession_author_ok [of rs]
    by (simp add: provenance_def startSession_def initialState_def)
next
  case (snoc e es)
  from snoc.prems obtain ss0 where r: "run_ui es (startSession rs) = Some ss0"
    and st: "ui_step e ss0 = Some ss"
    by (auto simp: run_ui_snoc split: option.splits)
  from st have en: "enabled e ss0" and ss: "ss = unmountRecorder (fire e ss0)"
    by (auto simp: ui_step_def split: if_splits)
  from snoc.IH [OF r] have "author_ok ss0" "provenance es ss0" by blast+
  then show ?case unfolding ss using en author_ok_step provenance_step by blast
qed

lemma reachable_fresh:
  assumes "run_ui es (startSession rs) = Some ss"
    and "sorted_wrt (<) (t0 # stamps es)"
    and "\<forall>r \<in> set rs. \<forall>t > t0. rec_id r \<noteq> ''rec-'' @ show_nat t"
  shows "fresh t0 es ss"
  using assms(1,2)
proof (induction es arbitrary: ss rule: rev_induct)
  case Nil
  then have "ss = startSession rs" by (simp add: run_ui_Nil)
  then show ?case
    using assms(3) by (simp add: fresh_def startSession_def initialState_def stamps_def)
next
  case (snoc e es)
  from snoc.prems(1) obtain ss0 where r: "run_ui es (startSession rs) = Some ss0"
    and st: "ui_step e ss0 = Some ss"
    by (auto simp: run_ui_snoc split: option.splits)
  from st have en: "enabled e ss0" and ss: "ss = unmountRecorder (fire e ss0)"
    by (auto simp: ui_step_def split: if_splits)
  have "t0 # stamps (es @ [e]) = (t0 # stamps es) @ stamps [e]" by (simp add: stamps_append)
  with snoc.prems(2) have so: "sorted_wrt (<) (t0 # stamps es)"
    and later: "\<forall>x \<in> set (t0 # stamps es). \<forall>y \<in> set (stamps [e]). x < y"
    by (simp_all only: sorted_wrt_append) blast+
  from snoc.IH [OF r so] have f: "fresh t0 es ss0" .
  from reachable_author_provenance [OF r] have p: "provenance es ss0" by blast
  show ?case unfolding ss by (rule fresh_step [OF f p en later])
qed

subsection \<open>Commit promotes the draft under review\<close>

text \<open>
  Claim C1, amended in the creation time only. In every state that a run of the component
  reaches from its initial state: commit creates a recipe exactly when a draft exists and
  its title is non-empty, and otherwise changes nothing; a click on "Save Recipe" is a
  commit. When it creates one, the draft is prepended to the collection, the draft and
  the captured photo are cleared, the creation step is the media step again and the view
  is the home view; nothing else changes. Where "Save Recipe" can be clicked, the author
  of the draft is the profile active at that moment. The id is \<^verbatim>\<open>rec-\<close> followed by a
  clock reading of the generation that produced the draft, and it is new to the
  collection when the readings taken for ids increase from one generation to the next
  and no seed recipe has an id of a later reading. The creation time is a clock reading
  of that generation, not the time of the commit.
\<close>

theorem commit_promotes_reviewed_draft:
  "run_ui events (startSession INITIAL_RECIPES) = Some ss \<longrightarrow>
     (draftRecipe (app ss) = None \<longrightarrow> commit clock (app ss) = app ss)
   \<and> (enabled (ClickSave clock) ss \<longrightarrow>
        (\<exists>ss'. ui_step (ClickSave clock) ss = Some ss' \<and> app ss' = commit clock (app ss)))
   \<and> (\<forall>d. draftRecipe (app ss) = Some d \<longrightarrow>
         (title d = [] \<longrightarrow> commit clock (app ss) = app ss)
       \<and> (title d \<noteq> [] \<longrightarrow>
            recipes (commit clock (app ss)) = d # recipes (app ss)
            \<and> draftRecipe (commit clock (app ss)) = None
            \<and> capturedImage (commit clock (app ss)) = None
            \<and> creationStep (commit clock (app ss)) = MEDIA
            \<and> view (commit clock (app ss)) = HOME
            \<and> (commit clock (app ss))\<lparr>recipes := recipes (app ss),
                 draftRecipe := draftRecipe (app ss), capturedImage := capturedImage (app ss),
                 creationStep := creationStep (app ss), view := view (app ss)\<rparr> = app ss)
       \<and> (enabled (ClickSave clock) ss \<longrightarrow> authorId d = user_id (currentUser (app ss)))
       \<and> (\<exists>now \<in> set (generated events).
             rec_id d = ''rec-'' @ show_nat (now 0) \<and> createdAt d = now 1)
       \<and> (sorted_wrt (<) (t0 # stamps events)
            \<and> (\<forall>r \<in> set INITIAL_RECIPES. \<forall>t > t0. rec_id r \<noteq> ''rec-'' @ show_nat t)
           \<longrightarrow> rec_id d \<notin> set (map rec_id (recipes (app ss)))))"
proof (intro impI)
  assume run: "run_ui events (startSession INITIAL_RECIPES) = Some ss"
  from reachable_author_provenance [OF run] have a: "author_ok ss" and p: "provenance events ss"
    by blast+
  have c0: "draftRecipe (app ss) = None \<longrightarrow> commit clock (app ss) = app ss"
    by (simp add: commit_def handleSaveRecipe_def)
  have c1: "enabled (ClickSave clock) ss \<longrightarrow>
        (\<exists>ss'. ui_step (ClickSave clock) ss = Some ss' \<and> app ss' = commit clock (app ss))"
    by (simp add: ui_step_def app_unmountRecorder)
  have c2: "\<forall>d. draftRecipe (app ss) = Some d \<longrightarrow>
         (title d = [] \<longrightarrow> commit clock (app ss) = app ss)
       \<and> (title d \<noteq> [] \<longrightarrow>
            recipes (commit clock (app ss)) = d # recipes (app ss)
            \<and> draftRecipe (commit clock (app ss)) = None
            \<and> capturedImage (commit clock (app ss)) = None
            \<and> creationStep (commit clock (app ss)) = MEDIA
            \<and> view (commit clock (app ss)) = HOME
            \<and> (commit clock (app ss))\<lparr>recipes := recipes (app ss),
                 draftRecipe := draftRecipe (app ss), capturedImage := capturedImage (app ss),
                 creationStep := creationStep (app ss), view := view (app ss)\<rparr> = app ss)"
    by (simp add: commit_def handleSaveRecipe_def)
  have c3: "\<forall>d. draftRecipe (app ss) = Some d \<longrightarrow> enabled (ClickSave clock) ss \<longrightarrow>
        authorId d = user_id (currentUser (app ss))"
    using a by (auto simp: author_ok_def reviewStep_def)
  have c4: "\<forall>d. draftRecipe (app ss) = Some d \<longrightarrow> (\<exists>now \<in> set (generated events).
             rec_id d = ''rec-'' @ show_nat (now 0) \<and> createdAt d = now 1)"
    using p by (simp add: provenance_def)
  have c5: "\<forall>d. draftRecipe (app ss) = Some d \<longrightarrow> sorted_wrt (<) (t0 # stamps events)
            \<and> (\<forall>r \<in> set INITIAL_RECIPES. \<forall>t > t0. rec_id r \<noteq> ''rec-'' @ show_nat t)
           \<longrightarrow> rec_id d \<notin> set (map rec_id (recipes (app ss)))"
    using reachable_fresh [OF run, of t0] by (auto simp: fresh_def)
  from c0 c1 c2 c3 c4 c5
  show "(draftRecipe (app ss) = None \<longrightarrow> commit clock (app ss) = app ss)
   \<and> (enabled (ClickSave clock) ss \<longrightarrow>
        (\<exists>ss'. ui_step (ClickSave clock) ss = Some ss' \<and> app ss' = commit clock (app ss)))
   \<and> (\<forall>d. draftRecipe (app ss) = Some d \<longrightarrow>
         (title d = [] \<longrightarrow> commit clock (app ss) = app ss)
       \<and> (title d \<noteq> [] \<longrightarrow>
            recipes (commit clock (app ss)) = d # recipes (app ss)
            \<and> draftRecipe (commit clock (app ss)) = None
            \<and> capturedImage (commit clock (app ss)) = None
            \<and> creationStep (commit clock (app ss)) = MEDIA
            \<and> view (commit clock (app ss)) = HOME
            \<and> (commit clock (app ss))\<lparr>recipes := recipes (app ss),
                 draftRecipe := draftRecipe (app ss), capturedImage := capturedImage (app ss),
                 creationStep := creationStep (app ss), view := view (app ss)\<rparr> = app ss)
       \<and> (enabled (ClickSave clock) ss \<longrightarrow> authorId d = user_id (currentUser (app ss)))
       \<and> (\<exists>now \<in> set (generated events).
             rec_id d = ''rec-'' @ show_nat (now 0) \<and> createdAt d = now 1)
       \<and> (sorted_wrt (<) (t0 # stamps events)
            \<and> (\<forall>r \<in> set INITIAL_RECIPES. \<forall>t > t0. rec_id r \<noteq> ''rec-'' @ show_nat t)
           \<longrightarrow> rec_id d \<notin> set (map rec_id (recipes (app ss)))))"
    by blast
qed


lemma run_ui_Cons:
  "run_ui (e # es) ss = (case ui_step e ss of None \<Rightarrow> None | Some x \<Rightarrow> run_ui es x)"
proof (cases "ui_step e ss")
  case None
  have "foldl (\<lambda>st e. case st of None \<Rightarrow> None | Some x \<Rightarrow> ui_step e x) None es = None"
    by (induction es) simp_all
  with None show ?thesis by (simp add: run_ui_def)
next
  case (Some x)
  then show ?thesis by (simp add: run_ui_def)
qed

lemma garlic_toast_run:
  "run_ui (toastEvents ttl) (startSession [pancakes]) = Some (session (reviewedToast ttl) None [])"
  unfolding toastEvents_def reviewedToast_def
proof -
  let ?a0 = "initialState [pancakes]"
  let ?a1 = "openCreate ?a0"
  let ?a3 = "handleGenerateRecipe_call ?a1"
  let ?a4 = "recordAndGenerate (steadyClock 1000) (Inr (exampleGenData ''Garlic Toast'')) ?a1"
  have v1: "view ?a1 = CREATE_RECIPE" "creationStep ?a1 = MEDIA" "isGenerating ?a1 = False"
    by (simp_all add: openCreate_def initialState_def)
  have v3: "view ?a3 = CREATE_RECIPE" "creationStep ?a3 = MEDIA"
    by (simp_all add: handleGenerateRecipe_call_def v1)
  have v4: "view ?a4 = CREATE_RECIPE" "creationStep ?a4 = REVIEW" "draftRecipe ?a4 \<noteq> None"
    by (simp_all add: recordAndGenerate_def handleGenerateRecipe_def handleGenerateRecipe_resume_def
        Let_def v3)
  have v5: "view (editField (EditTitle ttl) ?a4) = CREATE_RECIPE"
    using v4 by (auto simp: editField_def split: option.splits)
  have cl: "startRecording ?a1 = (hd DEFAULT_USERS, None)"
    by (simp add: startRecording_def openCreate_def initialState_def)
  have e0: "ui_step ClickCreate (startSession [pancakes]) = Some (session ?a1 None [])"
    by (simp add: ui_step_def startSession_def session_def unmountRecorder_def mediaStep_def v1)
       (simp add: initialState_def DEFAULT_USERS_def)
  have e1: "ui_step StartRecording (session ?a1 None []) = Some (session ?a1 (Some (hd DEFAULT_USERS, None)) [])"
    by (simp add: ui_step_def session_def unmountRecorder_def mediaStep_def v1 cl)
  have e2: "ui_step StopRecording (session ?a1 (Some (hd DEFAULT_USERS, None)) [])
            = Some (session ?a3 None [(hd DEFAULT_USERS, None)])"
    by (simp add: ui_step_def session_def unmountRecorder_def mediaStep_def v1 v3)
  have a4: "handleGenerateRecipe_resume (hd DEFAULT_USERS) None (steadyClock 1000)
              (Inr (exampleGenData ''Garlic Toast'')) ?a3 = ?a4"
    by (simp add: recordAndGenerate_def handleGenerateRecipe_def cl)
  have e3: "ui_step (GenerationSettles 0 (Inr (exampleGenData ''Garlic Toast'')) (steadyClock 1000))
              (session ?a3 None [(hd DEFAULT_USERS, None)])
            = Some (session ?a4 None [])"
    by (simp add: ui_step_def session_def unmountRecorder_def mediaStep_def a4 without_def)
  have e4: "ui_step (EditDraftField (EditTitle ttl)) (session ?a4 None [])
            = Some (session (editField (EditTitle ttl) ?a4) None [])"
    using v4 by (simp add: ui_step_def session_def unmountRecorder_def mediaStep_def reviewStep_def)
  show "run_ui [ClickCreate, StartRecording, StopRecording,
           GenerationSettles 0 (Inr (exampleGenData ''Garlic Toast'')) (steadyClock 1000),
           EditDraftField (EditTitle ttl)]
      (startSession [pancakes]) =
   Some (session (editField (EditTitle ttl) ?a4) None [])"
    by (simp add: run_ui_Cons run_ui_Nil e0 e1 e2 e3 e4)
qed


lemma reviewedToast_state:
  "draftRecipe (reviewedToast ttl) =
     Some ((newRecipe (hd DEFAULT_USERS) None (steadyClock 1000) (exampleGenData ''Garlic Toast''))
             \<lparr>title := ttl\<rparr>)"
  "recipes (reviewedToast ttl) = [pancakes]"
  "view (reviewedToast ttl) = CREATE_RECIPE"
  "creationStep (reviewedToast ttl) = REVIEW"
  "currentUser (reviewedToast ttl) = hd DEFAULT_USERS"
  by (simp_all add: reviewedToast_def editField_def recordAndGenerate_def handleGenerateRecipe_def
      handleGenerateRecipe_call_def handleGenerateRecipe_resume_def startRecording_def Let_def
      openCreate_def initialState_def)

lemma old_seed: "\<forall>r \<in> set [pancakes]. \<forall>t > 999. rec_id r \<noteq> ''rec-'' @ show_nat t"
proof (intro ballI allI impI notI)
  fix r t assume r: "r \<in> set [pancakes]" and t: "(999::nat) < t"
    and e: "rec_id r = ''rec-'' @ show_nat t"
  have "show_nat 2 = ''2''" by (simp add: show_nat.simps)
  with r e have "show_nat 2 = show_nat t" by (simp add: pancakes_def exampleRecipe_def)
  then have "2 = t" by (rule show_nat_inj)
  with t show False by simp
qed

text \<open>
  Susu opens the create view, records, the draft is generated at 1000 and retitled, and
  she saves at 2000: the recipe heads the collection as \<^verbatim>\<open>rec-1000\<close>, an id the collection
  did not have, authored by \<^verbatim>\<open>susu\<close>, the active profile, and created at 1000. With the
  title erased, saving does nothing.
\<close>

theorem commit_promotes_reviewed_draft_witness:
  "run_ui (toastEvents ''Garlic Toast Deluxe'') (startSession [pancakes])
     = Some (session (reviewedToast ''Garlic Toast Deluxe'') None [])
   \<and> enabled (ClickSave 2000) (session (reviewedToast ''Garlic Toast Deluxe'') None [])
   \<and> sorted_wrt (<) (999 # stamps (toastEvents ''Garlic Toast Deluxe''))
   \<and> map title (recipes (commit 2000 (reviewedToast ''Garlic Toast Deluxe'')))
        = [''Garlic Toast Deluxe'', ''Lemon Ricotta Pancakes'']
   \<and> rec_id (hd (recipes (commit 2000 (reviewedToast ''Garlic Toast Deluxe'')))) = ''rec-1000''
   \<and> ''rec-1000'' \<notin> set (map rec_id (recipes (reviewedToast ''Garlic Toast Deluxe'')))
   \<and> authorId (hd (recipes (commit 2000 (reviewedToast ''Garlic Toast Deluxe'')))) = ''susu''
   \<and> user_id (currentUser (reviewedToast ''Garlic Toast Deluxe'')) = ''susu''
   \<and> createdAt (hd (recipes (commit 2000 (reviewedToast ''Garlic Toast Deluxe'')))) = 1000
   \<and> draftRecipe (commit 2000 (reviewedToast ''Garlic Toast Deluxe'')) = None
   \<and> creationStep (commit 2000 (reviewedToast ''Garlic Toast Deluxe'')) = MEDIA
   \<and> view (commit 2000 (reviewedToast ''Garlic Toast Deluxe'')) = HOME
   \<and> run_ui (toastEvents []) (startSession [pancakes]) = Some (session (reviewedToast []) None [])
   \<and> commit 2000 (reviewedToast []) = reviewedToast []"
proof -
  let ?ttl = "''Garlic Toast Deluxe''"
  let ?d = "(newRecipe (hd DEFAULT_USERS) None (steadyClock 1000) (exampleGenData ''Garlic Toast''))
             \<lparr>title := ?ttl\<rparr>"
  let ?blank = "(newRecipe (hd DEFAULT_USERS) None (steadyClock 1000) (exampleGenData ''Garlic Toast''))
             \<lparr>title := []\<rparr>"
  have app: "\<And>ttl. app (session (reviewedToast ttl) None []) = reviewedToast ttl"
    by (simp add: session_def)
  have run: "run_ui (toastEvents ?ttl) (startSession [pancakes]) = Some (session (reviewedToast ?ttl) None [])"
    by (rule garlic_toast_run)
  have run0: "run_ui (toastEvents []) (startSession [pancakes]) = Some (session (reviewedToast []) None [])"
    by (rule garlic_toast_run)
  have en: "enabled (ClickSave 2000) (session (reviewedToast ?ttl) None [])"
    by (simp add: reviewStep_def app reviewedToast_state)
  have gen: "\<And>ttl. generated (toastEvents ttl) = [steadyClock 1000]" by (simp add: toastEvents_def)
  have so: "sorted_wrt (<) (999 # stamps (toastEvents ?ttl))"
    by (simp add: stamps_def gen steadyClock_def)
  note t = commit_promotes_reviewed_draft [where events = "toastEvents ?ttl"
      and INITIAL_RECIPES = "[pancakes]" and ss = "session (reviewedToast ?ttl) None []"
      and clock = 2000 and ?t0.0 = 999, rule_format, OF run, unfolded app]
  have d: "draftRecipe (reviewedToast ?ttl) = Some ?d" by (rule reviewedToast_state)
  have ne: "title ?d \<noteq> []" by simp
  from t [THEN conjunct2, THEN conjunct2, rule_format, OF d]
  have c: "recipes (commit 2000 (reviewedToast ?ttl)) = ?d # recipes (reviewedToast ?ttl)"
    and c1: "draftRecipe (commit 2000 (reviewedToast ?ttl)) = None"
    and c2: "creationStep (commit 2000 (reviewedToast ?ttl)) = MEDIA"
    and c3: "view (commit 2000 (reviewedToast ?ttl)) = HOME"
    and au: "authorId ?d = user_id (currentUser (reviewedToast ?ttl))"
    and pr: "\<exists>now \<in> set (generated (toastEvents ?ttl)).
               rec_id ?d = ''rec-'' @ show_nat (now 0) \<and> createdAt ?d = now 1"
    and fr: "rec_id ?d \<notin> set (map rec_id (recipes (reviewedToast ?ttl)))"
    using ne en so old_seed by blast+
  from pr have id: "rec_id ?d = ''rec-1000''" and cr: "createdAt ?d = 1000"
    unfolding gen by (simp_all add: steadyClock_def show_nat_1000)
  have su: "user_id (currentUser (reviewedToast ?ttl)) = ''susu''"
    by (simp add: reviewedToast_state DEFAULT_USERS_def)
  have tp: "title pancakes = ''Lemon Ricotta Pancakes''"
    by (simp add: pancakes_def exampleRecipe_def)
  note t0 = commit_promotes_reviewed_draft [where events = "toastEvents []"
      and INITIAL_RECIPES = "[pancakes]" and ss = "session (reviewedToast []) None []"
      and clock = 2000 and ?t0.0 = 999, rule_format, OF run0, unfolded app]
  have d0: "draftRecipe (reviewedToast []) = Some ?blank" by (rule reviewedToast_state)
  have "title ?blank = []" by simp
  with t0 [THEN conjunct2, THEN conjunct2, rule_format, OF d0]
  have er: "commit 2000 (reviewedToast []) = reviewedToast []" by blast
  have hd: "hd (recipes (commit 2000 (reviewedToast ?ttl))) = ?d" by (simp only: c list.sel)
  have mt: "map title (recipes (commit 2000 (reviewedToast ?ttl))) = [?ttl, ''Lemon Ricotta Pancakes'']"
    by (simp add: c reviewedToast_state(2) tp)
  have fr': "''rec-1000'' \<notin> set (map rec_id (recipes (reviewedToast ?ttl)))"
    using fr unfolding id .
  have au': "authorId ?d = ''susu''" using au su by simp
  show ?thesis
    unfolding hd using run en so mt id fr' au' su cr c1 c2 c3 run0 er by blast
qed

section \<open>Properties of the shopping list and the servings scale\<close>

lemma show_number_half: "show_number (1 / 2) = ''0.5''"
  by (simp add: show_number_def show_nat.simps)

lemma show_number_two: "show_number 2 = ''2''"
  by (simp add: show_number_def show_nat.simps)





lemma scaleAnnotation_shown:
  "(scaleAnnotation m = None) = (m = 1)
   \<and> (m \<noteq> 1 \<longrightarrow> scaleAnnotation m = Some (''(x'' @ show_number m @ '')''))"
  by (simp add: scaleAnnotation_def)

lemma shoppingItem_fields:
  "ing_id (shoppingItem m stamp suffix ing) = ''shop-'' @ show_nat stamp @ ''-'' @ suffix
   \<and> checked (shoppingItem m stamp suffix ing) = False
   \<and> item (shoppingItem m stamp suffix ing) =
        (if 1 < m then item ing @ '' (x'' @ show_number m @ '')'' else item ing @ '' '')
   \<and> amount (shoppingItem m stamp suffix ing) = amount ing
   \<and> estimatedCost (shoppingItem m stamp suffix ing) = estimatedCost ing
   \<and> category (shoppingItem m stamp suffix ing) = category ing"
  by (simp add: shoppingItem_def)

lemma shoppingItem_id_new:
  assumes "take 5 (ing_id ing) \<noteq> ''shop-''"
  shows "ing_id (shoppingItem m stamp suffix ing) \<noteq> ing_id ing"
proof
  assume "ing_id (shoppingItem m stamp suffix ing) = ing_id ing"
  moreover have "take 5 (ing_id (shoppingItem m stamp suffix ing)) = ''shop-''"
    by (simp add: shoppingItem_def)
  ultimately show False using assms by simp
qed

lemma addToShoppingList_items:
  "shoppingList (currentUser (addToShoppingList now rnd ings s)) =
     shoppingList (currentUser s) @
     map (\<lambda>(k, ing). shoppingItem (servingsMultiplier s) (now k) (rnd k) ing) (enumerate 0 ings)"
  by (simp add: addToShoppingList_def Let_def)

subsection \<open>The shopping-list label at half servings\<close>

text \<open>
  Claim C2 asks that an item added to the shopping list gets a new identity, is
  unchecked, and carries the scale annotation exactly when the multiplier is not 1, at
  one half in particular. The identity and the flag are as claimed
  (\<open>shoppingItem_fields\<close>, \<open>shoppingItem_id_new\<close>). The annotation is not:
  \<^verbatim>\<open>addToShoppingList\<close> tests \<^verbatim>\<open>multiplier > 1\<close> where the detail view tests
  \<^verbatim>\<open>servingsMultiplier !== 1\<close>. Papa Joe halves the servings and adds the garlic: the
  detail view shows \<^verbatim>\<open>(x0.5)\<close>, the shopping list says \<^verbatim>\<open>Garlic\<close> with nothing behind it,
  as it does at multiplier 1. At multiplier 2 the label is \<^verbatim>\<open>Garlic (x2)\<close>.
\<close>

theorem shopping_label_unannotated_at_half:
  "servingsMultiplier (fewerServings (selectRecipe pancakes
      (handleSwitchUser ''dad'' (initialState [pancakes])))) = 1 / 2
   \<and> map item (shoppingList (currentUser
        (addToShoppingList (steadyClock 1000) (fixedSuffix ''k3x9q2m1a'') [garlic]
          (fewerServings (selectRecipe pancakes
             (handleSwitchUser ''dad'' (initialState [pancakes]))))))) = [''Garlic '']
   \<and> map (\<lambda>i. (ing_id i, checked i)) (shoppingList (currentUser
        (addToShoppingList (steadyClock 1000) (fixedSuffix ''k3x9q2m1a'') [garlic]
          (fewerServings (selectRecipe pancakes
             (handleSwitchUser ''dad'' (initialState [pancakes])))))))
       = [(''shop-1000-k3x9q2m1a'', False)]
   \<and> scaleAnnotation (servingsMultiplier (fewerServings (selectRecipe pancakes
        (handleSwitchUser ''dad'' (initialState [pancakes]))))) = Some ''(x0.5)''
   \<and> map item (shoppingList (currentUser
        (addToShoppingList (steadyClock 1000) (fixedSuffix ''k3x9q2m1a'') [garlic]
          (moreServings (moreServings (selectRecipe pancakes
             (handleSwitchUser ''dad'' (initialState [pancakes])))))))) = [''Garlic (x2)'']
   \<and> map item (shoppingList (currentUser
        (addToShoppingList (steadyClock 1000) (fixedSuffix ''k3x9q2m1a'') [garlic]
          (selectRecipe pancakes
             (handleSwitchUser ''dad'' (initialState [pancakes])))))) = [''Garlic '']"
proof -
  let ?s = "selectRecipe pancakes (handleSwitchUser ''dad'' (initialState [pancakes]))"
  have cu: "shoppingList (currentUser ?s) = []"
    by (simp add: selectRecipe_def handleSwitchUser_def initialState_def DEFAULT_USERS_def)
  have m1: "servingsMultiplier ?s = 1" by (simp add: selectRecipe_def)
  have mh: "servingsMultiplier (fewerServings ?s) = 1 / 2" by (simp add: fewerServings_def m1)
  have m2: "servingsMultiplier (moreServings (moreServings ?s)) = 2"
    by (simp add: moreServings_def m1)
  have ch: "currentUser (fewerServings ?s) = currentUser ?s" by (simp add: fewerServings_def)
  have c2: "currentUser (moreServings (moreServings ?s)) = currentUser ?s"
    by (simp add: moreServings_def)
  have g: "item garlic = ''Garlic''" by (simp add: garlic_def)
  show ?thesis
    by (simp add: addToShoppingList_items mh m2 m1 ch c2 cu shoppingItem_fields g
          enumerate_eq_zip scaleAnnotation_def show_number_half show_number_two
          steadyClock_def fixedSuffix_def show_nat_1000)
qed

section \<open>Properties of the asynchronous results\<close>

lemma imageSettled_no_draft:
  "draftRecipe s = None \<Longrightarrow>
   draftRecipe (imageSettled k result s) = None \<and> recipes (imageSettled k result s) = recipes s
   \<and> selectedRecipe (imageSettled k result s) = selectedRecipe s"
  by (simp add: imageSettled_def Let_def split: option.splits)

lemma imageSettled_attaches:
  "k < length (pendingImages s) \<Longrightarrow> draftRecipe s = Some d \<Longrightarrow>
   draftRecipe (imageSettled k (Some url) s) = Some (d\<lparr>imageUrl := Some url\<rparr>)"
  by (simp add: imageSettled_def Let_def)

lemma recordAndGenerate_draft:
  "draftRecipe (recordAndGenerate now (Inr g) s)
     = Some (newRecipe (currentUser s) (capturedImage s) now g)"
  by (simp add: handleGenerateRecipe_def recordAndGenerate_def startRecording_def
        handleGenerateRecipe_call_def handleGenerateRecipe_resume_def Let_def)

lemma recordAndGenerate_with_photo:
  "truthy (capturedImage s) \<Longrightarrow>
   pendingImages (recordAndGenerate now (Inr g) s) = pendingImages s"
  by (simp add: handleGenerateRecipe_def recordAndGenerate_def startRecording_def
        handleGenerateRecipe_call_def handleGenerateRecipe_resume_def Let_def)

lemma show_nat_2000: "show_nat 2000 = ''2000''"
  by (simp add: show_nat.simps)

subsection \<open>A hero image that arrives after its draft is gone\<close>

text \<open>
  Claim C4 asks that the result of a hero-image request is dropped when its draft has
  been discarded, and never reaches another draft. The callback tests only whether some
  draft exists. When none exists the result is dropped (\<open>imageSettled_no_draft\<close>). When
  the first draft \<^verbatim>\<open>rec-1000\<close> was discarded and a second one, \<^verbatim>\<open>rec-2000\<close>, was
  generated from a captured photo before the request of the first settles, the image
  made for the first draft replaces the photo of the second.
\<close>

theorem stale_image_attached_to_later_draft:
  "map req_draft (pendingImages
      (recordAndGenerate (steadyClock 2000) (Inr (exampleGenData ''Lemon Cake''))
        (capturePhoto ''data:image/jpeg;base64,PHOTO''
          (discard
            (recordAndGenerate (steadyClock 1000) (Inr (exampleGenData ''Garlic Toast''))
              (openCreate (initialState []))))))) = [''rec-1000'']
   \<and> map_option rec_id (draftRecipe
      (recordAndGenerate (steadyClock 2000) (Inr (exampleGenData ''Lemon Cake''))
        (capturePhoto ''data:image/jpeg;base64,PHOTO''
          (discard
            (recordAndGenerate (steadyClock 1000) (Inr (exampleGenData ''Garlic Toast''))
              (openCreate (initialState []))))))) = Some ''rec-2000''
   \<and> map_option imageUrl (draftRecipe
      (recordAndGenerate (steadyClock 2000) (Inr (exampleGenData ''Lemon Cake''))
        (capturePhoto ''data:image/jpeg;base64,PHOTO''
          (discard
            (recordAndGenerate (steadyClock 1000) (Inr (exampleGenData ''Garlic Toast''))
              (openCreate (initialState []))))))) = Some (Some ''data:image/jpeg;base64,PHOTO'')
   \<and> map_option (\<lambda>d. (rec_id d, title d, imageUrl d)) (draftRecipe
      (imageSettled 0 (Some ''data:image/png;base64,TOAST'')
        (recordAndGenerate (steadyClock 2000) (Inr (exampleGenData ''Lemon Cake''))
          (capturePhoto ''data:image/jpeg;base64,PHOTO''
            (discard
              (recordAndGenerate (steadyClock 1000) (Inr (exampleGenData ''Garlic Toast''))
                (openCreate (initialState []))))))))
       = Some (''rec-2000'', ''Lemon Cake'', Some ''data:image/png;base64,TOAST'')"
proof -
  let ?s1 = "recordAndGenerate (steadyClock 1000) (Inr (exampleGenData ''Garlic Toast''))
              (openCreate (initialState []))"
  let ?s2 = "capturePhoto ''data:image/jpeg;base64,PHOTO'' (discard ?s1)"
  let ?s3 = "recordAndGenerate (steadyClock 2000) (Inr (exampleGenData ''Lemon Cake'')) ?s2"
  have p1: "pendingImages ?s1 = [\<lparr>req_draft = ''rec-1000'', req_title = ''Garlic Toast'',
                                 req_description = ''Warm and simple''\<rparr>]"
    by (simp add: handleGenerateRecipe_def recordAndGenerate_def startRecording_def
          handleGenerateRecipe_call_def
          handleGenerateRecipe_resume_def Let_def newRecipe_def exampleGenData_def
          steadyClock_def openCreate_def initialState_def truthy_def show_nat_1000)
  have s2: "pendingImages ?s2 = pendingImages ?s1" "capturedImage ?s2 = Some ''data:image/jpeg;base64,PHOTO''"
    by (simp_all add: capturePhoto_def discard_def)
  have "truthy (capturedImage ?s2)" unfolding s2 by (simp add: truthy_def)
  then have p3: "pendingImages ?s3 = pendingImages ?s1"
    using recordAndGenerate_with_photo [of ?s2] s2(1) by simp
  have d3: "draftRecipe ?s3 = Some (newRecipe (currentUser ?s2)
               (Some ''data:image/jpeg;base64,PHOTO'') (steadyClock 2000) (exampleGenData ''Lemon Cake''))"
    using recordAndGenerate_draft [of "steadyClock 2000" "exampleGenData ''Lemon Cake''" ?s2]
    unfolding s2 .
  have n3: "rec_id (newRecipe u (Some ''data:image/jpeg;base64,PHOTO'') (steadyClock 2000)
                     (exampleGenData ''Lemon Cake'')) = ''rec-2000''
     \<and> title (newRecipe u (Some ''data:image/jpeg;base64,PHOTO'') (steadyClock 2000)
                     (exampleGenData ''Lemon Cake'')) = ''Lemon Cake''
     \<and> imageUrl (newRecipe u (Some ''data:image/jpeg;base64,PHOTO'') (steadyClock 2000)
                     (exampleGenData ''Lemon Cake'')) = Some ''data:image/jpeg;base64,PHOTO''" for u
    by (simp add: newRecipe_def steadyClock_def exampleGenData_def truthy_def show_nat_2000)
  have k: "0 < length (pendingImages ?s3)" by (simp add: p3 p1)
  show ?thesis
    by (simp add: imageSettled_attaches [OF k d3] d3 n3 p3 p1)
qed

section \<open>Properties of cooking mode\<close>

lemma cooking_step_keeps_recipe: "selectedRecipe (cooking_step a s) = selectedRecipe s"
  by (cases a) (simp_all split: option.splits)

lemma cooking_step_in_bounds:
  assumes "selectedRecipe s = Some r" "instructions r \<noteq> []"
  shows "step_in_bounds (cooking_step StartCooking s)"
    and "step_in_bounds (cooking_step ExitCooking s)"
    and "step_in_bounds s \<Longrightarrow> step_in_bounds (cooking_step a s)"
proof -
  from assms show "step_in_bounds (cooking_step StartCooking s)"
    by (simp add: step_in_bounds_def)
  from assms show "step_in_bounds (cooking_step ExitCooking s)"
    by (simp add: step_in_bounds_def)
  assume "step_in_bounds s"
  with assms show "step_in_bounds (cooking_step a s)"
    by (cases a) (auto simp: step_in_bounds_def)
qed

lemma run_cooking_Cons: "run_cooking (a # acts) s = run_cooking acts (cooking_step a s)"
  by (simp add: run_cooking_def)

lemma run_cooking_in_bounds:
  "selectedRecipe s = Some r \<Longrightarrow> instructions r \<noteq> [] \<Longrightarrow> step_in_bounds s \<Longrightarrow>
   step_in_bounds (run_cooking acts s) \<and> selectedRecipe (run_cooking acts s) = Some r"
proof (induction acts arbitrary: s)
  case Nil
  then show ?case by (simp add: run_cooking_def)
next
  case (Cons a acts)
  have "selectedRecipe (cooking_step a s) = Some r"
    using Cons.prems(1) by (simp add: cooking_step_keeps_recipe)
  moreover have "step_in_bounds (cooking_step a s)"
    using cooking_step_in_bounds(3) [OF Cons.prems(1,2,3)] .
  ultimately show ?case
    using Cons.IH [of "cooking_step a s"] Cons.prems(2) by (simp add: run_cooking_Cons)
qed

lemma cooking_mode_in_bounds:
  assumes "selectedRecipe s = Some r" "instructions r \<noteq> []"
  shows "step_in_bounds (run_cooking (StartCooking # acts) s)
     \<and> (\<exists>txt. currentStep (run_cooking (StartCooking # acts) s) = Step txt)"
proof -
  let ?s = "cooking_step StartCooking s"
  have "selectedRecipe ?s = Some r" using assms(1) by simp
  moreover have "step_in_bounds ?s" using cooking_step_in_bounds(1) [OF assms] .
  ultimately have b: "step_in_bounds (run_cooking acts ?s)"
    using run_cooking_in_bounds [of ?s r acts] assms(2) by blast
  then show ?thesis
    by (auto simp: run_cooking_Cons step_in_bounds_def currentStep_def split: option.splits)
qed

subsection \<open>The step index after a stale write to the displayed recipe\<close>

text \<open>
  Claim C10 asks that in cooking mode the step index is always a valid index into the
  instructions of the selected recipe. The buttons of cooking mode keep it valid
  (\<open>cooking_mode_in_bounds\<close>). The enrichment handlers do not: when they resume they
  set the displayed recipe to the one they captured. Video generation is started on the
  garlic bread (one instruction); the user goes home, opens the pancakes (four
  instructions), starts cooking mode and steps to the third instruction; then the video
  arrives. Cooking mode now displays the garlic bread at index 2 and reads outside its
  instructions.
\<close>

theorem stale_video_breaks_cooking_index:
  "currentStep (run_cooking [StartCooking, NextStep, NextStep]
      (selectRecipe pancakes (goHome
         (fst (handleGenerateVideoForActiveRecipe_call True
            (selectRecipe garlicBread (initialState [garlicBread, pancakes])))))))
     = Step ''Fold wet into dry ingredients gently. Do not overmix!''
   \<and> snd (handleGenerateVideoForActiveRecipe_call True
          (selectRecipe garlicBread (initialState [garlicBread, pancakes]))) = Some garlicBread
   \<and> view (handleGenerateVideoForActiveRecipe_resume garlicBread (Inr ''blob:video-1'')
        (run_cooking [StartCooking, NextStep, NextStep]
          (selectRecipe pancakes (goHome
             (fst (handleGenerateVideoForActiveRecipe_call True
                (selectRecipe garlicBread (initialState [garlicBread, pancakes])))))))) = COOKING_MODE
   \<and> map_option instructions (selectedRecipe
        (handleGenerateVideoForActiveRecipe_resume garlicBread (Inr ''blob:video-1'')
        (run_cooking [StartCooking, NextStep, NextStep]
          (selectRecipe pancakes (goHome
             (fst (handleGenerateVideoForActiveRecipe_call True
                (selectRecipe garlicBread (initialState [garlicBread, pancakes]))))))))) 
       = Some [''Toast the bread with garlic butter.'']
   \<and> currentStepIndex
        (handleGenerateVideoForActiveRecipe_resume garlicBread (Inr ''blob:video-1'')
        (run_cooking [StartCooking, NextStep, NextStep]
          (selectRecipe pancakes (goHome
             (fst (handleGenerateVideoForActiveRecipe_call True
                (selectRecipe garlicBread (initialState [garlicBread, pancakes])))))))) = 2
   \<and> currentStep
        (handleGenerateVideoForActiveRecipe_resume garlicBread (Inr ''blob:video-1'')
        (run_cooking [StartCooking, NextStep, NextStep]
          (selectRecipe pancakes (goHome
             (fst (handleGenerateVideoForActiveRecipe_call True
                (selectRecipe garlicBread (initialState [garlicBread, pancakes])))))))) = Undefined"
proof -
  let ?s1 = "selectRecipe garlicBread (initialState [garlicBread, pancakes])"
  let ?s3 = "selectRecipe pancakes (goHome (fst (handleGenerateVideoForActiveRecipe_call True ?s1)))"
  let ?s4 = "run_cooking [StartCooking, NextStep, NextStep] ?s3"
  let ?s5 = "handleGenerateVideoForActiveRecipe_resume garlicBread (Inr ''blob:video-1'') ?s4"
  have cap: "snd (handleGenerateVideoForActiveRecipe_call True ?s1) = Some garlicBread"
    by (simp add: handleGenerateVideoForActiveRecipe_call_def selectRecipe_def)
  have sel3: "selectedRecipe ?s3 = Some pancakes" by (simp add: selectRecipe_def)
  have ip: "instructions pancakes =
     [''Whisk flour, sugar, and baking powder.'',
      ''In another bowl, mix ricotta, eggs, milk, and lemon zest.'',
      ''Fold wet into dry ingredients gently. Do not overmix!'',
      ''Cook on buttered griddle until golden.'']"
    by (simp add: pancakes_def exampleRecipe_def)
  have ig: "instructions garlicBread = [''Toast the bread with garlic butter.'']"
    by (simp add: garlicBread_def exampleRecipe_def)
  have s4: "selectedRecipe ?s4 = Some pancakes" "currentStepIndex ?s4 = 2" "view ?s4 = COOKING_MODE"
    by (simp_all add: run_cooking_def sel3 ip)
  have c4: "currentStep ?s4 = Step ''Fold wet into dry ingredients gently. Do not overmix!''"
    by (simp add: currentStep_def s4 ip)
  have s5: "selectedRecipe ?s5 = Some (garlicBread\<lparr>videoUrl := Some ''blob:video-1''\<rparr>)"
       "currentStepIndex ?s5 = 2" "view ?s5 = COOKING_MODE"
    by (simp_all add: handleGenerateVideoForActiveRecipe_resume_def writeThrough_def s4)
  have c5: "currentStep ?s5 = Undefined"
    by (simp add: currentStep_def s5 ig)
  show ?thesis using cap c4 s5 c5 ig by simp
qed

section \<open>Properties of the displayed cost\<close>





subsection \<open>Rounding to binary64\<close>





subsection \<open>Exact binary64 products\<close>






subsection \<open>The servings buttons\<close>










subsection \<open>The displayed cost and the rounded product\<close>




lemma toDouble_2: "toDouble 2 = \<lparr>significand = 4, exponent = - 1\<rparr>"
  by (simp add: toDouble_def)








text \<open>
  Two clicks on plus at a recipe whose garlic costs 0.50: the multiplier is 2, the row
  reads \<^verbatim>\<open>5 cloves (x2) Garlic $1.00\<close>, and 1.00 is the exact product rounded to two
  decimals.
\<close>

lemma product_garlic: "js_times (estimatedCost garlic) (toDouble 2) = \<lparr>significand = 4, exponent = - 2\<rparr>"
proof -
  have "bit_length 4 = 3" by (simp add: bit_length.simps)
  then show ?thesis by (simp add: js_times_def garlic_def toDouble_2 round53_def Let_def)
qed



end
